theory Spec2Isabelle
  imports Main "HOL-Library.Word" "HOL-Library.Multiset"
begin

section \<open>The session protocol engine (internal/network/network.go)\<close>

text \<open>
  Go's \<open>int64\<close> sequence counters are 64-bit words read as two's complement
  (\<open>sint\<close>): \<open>atomic.AddInt64\<close> wraps around. The other \<open>int64\<close> and \<open>int\<close>
  fields of the model (levels, currency, timestamps, plot ids, counters) are
  mathematical integers that hold 64-bit values: the code compares and stores them,
  and where it multiplies or divides them (the budget check of the planting step) the
  wrap-around is written out. On the platforms the program is built for \<open>int\<close> has 64
  bits, so the conversions between \<open>int\<close> and \<open>int64\<close> change nothing. Log output
  (\<open>utils.Log\<close>, \<open>utils.LogWarn\<close>) and the pauses between calls (\<open>time.Sleep\<close>) are
  not part of the state and are left out.
\<close>

type_synonym bytes = "8 word list"
type_synonym seq64 = "64 word"

subsection \<open>UserState\<close>

record UserState =
  GID :: int
  Name :: string
  Level :: int
  Gold :: int
  Exp :: int

definition UpdateGold :: "int \<Rightarrow> UserState \<Rightarrow> UserState" where
  "UpdateGold gold u = u\<lparr>Gold := gold\<rparr>"

definition UpdateExp :: "int \<Rightarrow> UserState \<Rightarrow> UserState" where
  "UpdateExp exp u = u\<lparr>Exp := exp\<rparr>"

definition UpdateLevel :: "int \<Rightarrow> UserState \<Rightarrow> UserState" where
  "UpdateLevel level u = u\<lparr>Level := level\<rparr>"

subsection \<open>Wire messages\<close>

text \<open>\<open>gatepb.Meta\<close>, \<open>gatepb.Message\<close>, \<open>gatepb.EventMessage\<close>, and the part of
  \<open>userpb.BasicNotify\<close> that the handlers read. A pointer that may be nil is an option.\<close>

record Meta =
  ServiceName :: string
  MethodName :: string
  MessageType :: int
  ClientSeq :: seq64
  ServerSeq :: seq64
  ErrorCode :: int
  ErrorMessage :: string

record Message =
  msg_Meta :: "Meta option"
  msg_Body :: bytes

record EventMessage =
  ev_MessageType :: string
  ev_Body :: bytes

record BasicInfo =
  bi_Gid :: int
  bi_Name :: string
  bi_Level :: int
  bi_Gold :: int
  bi_Exp :: int

record BasicNotify =
  Basic :: "BasicInfo option"

text \<open>The errors a call can return, as values.\<close>

datatype error =
    ErrNotConnected
  | ErrMarshalBody
  | ErrMarshalGateway
  | ErrSend
  | ErrUnmarshalResponse
  | ErrTimeout
  | ErrRemote string string int string

record Response =
  resp_Body :: bytes
  resp_Meta :: "Meta option"
  Err :: "error option"

text \<open>The protobuf codec (\<open>proto.Marshal\<close>, \<open>proto.Unmarshal\<close>) is outside the repository:
  it is a parameter. \<open>None\<close> is the codec's error return.\<close>

record ('b, 'r) Codec =
  marshalBody :: "'b \<Rightarrow> bytes option"
  marshalMessage :: "Message \<Rightarrow> bytes option"
  unmarshalReply :: "bytes \<Rightarrow> 'r option"
  unmarshalMessage :: "bytes \<Rightarrow> Message option"
  unmarshalEvent :: "bytes \<Rightarrow> EventMessage option"
  unmarshalBasicNotify :: "bytes \<Rightarrow> BasicNotify option"

subsection \<open>NetworkManager\<close>

text \<open>
  A callback channel (\<open>chan *Response\<close>, capacity 1) is an address into the store
  \<open>chans\<close>, which holds what has been sent to each channel and not yet received; the
  waiting caller of \<open>SendProtoMessage\<close> holds the same address. \<open>nextChan\<close> is the
  allocator behind \<open>make(chan *Response, 1)\<close>. \<open>emitted\<close> records the calls of
  \<open>EventEmitter.Emit\<close> in order (the handlers themselves run as goroutines).
\<close>

type_synonym chan = nat

datatype payload = PString string | PBytes bytes

record NetworkManager =
  ws :: "nat option"
  clientSeq :: seq64
  serverSeq :: seq64
  pendingCallbacks :: "seq64 \<rightharpoonup> chan"
  userState :: UserState
  connected :: bool
  chans :: "chan \<Rightarrow> Response list"
  nextChan :: chan
  emitted :: "(string \<times> payload) list"

definition Emit :: "string \<Rightarrow> payload \<Rightarrow> NetworkManager \<Rightarrow> NetworkManager" where
  "Emit event data nm = nm\<lparr>emitted := emitted nm @ [(event, data)]\<rparr>"

text \<open>\<open>callback <- resp\<close>: the response is appended to the channel's buffer.\<close>

definition chan_send :: "chan \<Rightarrow> Response \<Rightarrow> NetworkManager \<Rightarrow> NetworkManager" where
  "chan_send c r nm = nm\<lparr>chans := (chans nm)(c := chans nm c @ [r])\<rparr>"

subsection \<open>handleBasicNotify\<close>

definition handleBasicNotify :: "('b, 'r) Codec \<Rightarrow> bytes \<Rightarrow> NetworkManager \<Rightarrow> NetworkManager" where
  "handleBasicNotify codec body nm =
     (case unmarshalBasicNotify codec body of
        None \<Rightarrow> nm
      | Some notify \<Rightarrow>
          (case Basic notify of
             None \<Rightarrow> nm
           | Some b \<Rightarrow>
               let nm1 = (if 0 < bi_Level b
                          then nm\<lparr>userState := UpdateLevel (bi_Level b) (userState nm)\<rparr> else nm);
                   nm2 = (if 0 < bi_Gold b
                          then nm1\<lparr>userState := UpdateGold (bi_Gold b) (userState nm1)\<rparr> else nm1);
                   nm3 = (if 0 < bi_Exp b
                          then nm2\<lparr>userState := UpdateExp (bi_Exp b) (userState nm2)\<rparr> else nm2)
               in nm3))"

text \<open>What the handler decoded: the \<open>Basic\<close> part of the notification, if the body
  parses and carries one.\<close>

definition notifiedBasic :: "('b, 'r) Codec \<Rightarrow> bytes \<Rightarrow> BasicInfo option" where
  "notifiedBasic codec body =
     (case unmarshalBasicNotify codec body of None \<Rightarrow> None | Some notify \<Rightarrow> Basic notify)"

subsection \<open>handleNotify\<close>

text \<open>\<open>containsHelper\<close> tries every start index \<open>i\<close> with \<open>i + len(substr) \<le> len(s)\<close>;
  the recursion walks the same suffixes \<open>s[i:]\<close>, and a suffix shorter than
  \<open>substr\<close> never matches.\<close>

fun containsHelper :: "string \<Rightarrow> string \<Rightarrow> bool" where
  "containsHelper [] substr = (substr = [])"
| "containsHelper (c # s) substr =
     (if length substr \<le> length (c # s) \<and> take (length substr) (c # s) = substr then True
      else containsHelper s substr)"

definition contains :: "string \<Rightarrow> string \<Rightarrow> bool" where
  "contains s substr \<longleftrightarrow>
     length substr \<le> length s \<and> (s = substr \<or> (0 < length s \<and> containsHelper s substr))"

definition handleNotify :: "('b, 'r) Codec \<Rightarrow> Message \<Rightarrow> NetworkManager \<Rightarrow> NetworkManager" where
  "handleNotify codec msg nm =
     (if msg_Body msg = [] then nm
      else case unmarshalEvent codec (msg_Body msg) of
        None \<Rightarrow> nm
      | Some eventMsg \<Rightarrow>
          let msgType = ev_MessageType eventMsg in
          if contains msgType ''Kickout'' then Emit ''kickout'' (PString msgType) nm
          else if contains msgType ''LandsNotify''
            then Emit ''landsChanged'' (PBytes (ev_Body eventMsg)) nm
          else if contains msgType ''ItemNotify''
            then Emit ''itemNotify'' (PBytes (ev_Body eventMsg)) nm
          else if contains msgType ''BasicNotify''
            then Emit ''basicNotify'' (PBytes (ev_Body eventMsg))
                   (handleBasicNotify codec (ev_Body eventMsg) nm)
          else if contains msgType ''TaskInfoNotify''
            then Emit ''taskInfoNotify'' (PBytes (ev_Body eventMsg)) nm
          else nm)"

subsection \<open>handleMessage\<close>

text \<open>The \<open>Response\<close> that the receive loop builds from a response frame.\<close>

definition responseOf :: "Message \<Rightarrow> Meta \<Rightarrow> Response" where
  "responseOf msg meta =
     \<lparr>resp_Body = msg_Body msg, resp_Meta = Some meta,
      Err = (if ErrorCode meta \<noteq> 0
             then Some (ErrRemote (ServiceName meta) (MethodName meta) (ErrorCode meta)
                          (ErrorMessage meta))
             else None)\<rparr>"

text \<open>The lookup and the delete happen under \<open>nm.mu\<close>, so they are one step; the send
  to the channel follows it.\<close>

definition handleMessage :: "('b, 'r) Codec \<Rightarrow> bytes \<Rightarrow> NetworkManager \<Rightarrow> NetworkManager" where
  "handleMessage codec data nm =
     (case unmarshalMessage codec data of
        None \<Rightarrow> nm
      | Some msg \<Rightarrow>
          (case msg_Meta msg of
             None \<Rightarrow> nm
           | Some meta \<Rightarrow>
               let nm1 = (if 0 < sint (ServerSeq meta) then nm\<lparr>serverSeq := ServerSeq meta\<rparr>
                          else nm);
                   msgType = MessageType meta
               in if msgType = 3 then handleNotify codec msg nm1
                  else if msgType = 2 then
                    (let clientSeq' = ClientSeq meta in
                     case pendingCallbacks nm1 clientSeq' of
                       None \<Rightarrow> nm1
                     | Some callback \<Rightarrow>
                         chan_send callback (responseOf msg meta)
                           (nm1\<lparr>pendingCallbacks := (pendingCallbacks nm1)(clientSeq' := None)\<rparr>))
                  else nm1))"

subsection \<open>EncodeMessage and SendProtoMessage\<close>

text \<open>\<open>atomic.AddInt64(&nm.clientSeq, 1)\<close> returns the new value; on 64-bit words the
  addition wraps. The counter is advanced before the body is serialised, so a failed
  call uses up a number as well.\<close>

definition EncodeMessage ::
  "('b, 'r) Codec \<Rightarrow> string \<Rightarrow> string \<Rightarrow> 'b \<Rightarrow> NetworkManager
     \<Rightarrow> (error + bytes \<times> seq64) \<times> NetworkManager" where
  "EncodeMessage codec serviceName methodName body nm =
     (let seq = clientSeq nm + 1;
          nm' = nm\<lparr>clientSeq := seq\<rparr>
      in case marshalBody codec body of
           None \<Rightarrow> (Inl ErrMarshalBody, nm')
         | Some bodyBytes \<Rightarrow>
             (case marshalMessage codec
                     \<lparr>msg_Meta = Some \<lparr>ServiceName = serviceName, MethodName = methodName,
                                         MessageType = 1, ClientSeq = seq,
                                         ServerSeq = serverSeq nm', ErrorCode = 0,
                                         ErrorMessage = []\<rparr>,
                      msg_Body = bodyBytes\<rparr> of
                None \<Rightarrow> (Inl ErrMarshalGateway, nm')
              | Some data \<Rightarrow> (Inr (data, seq), nm')))"

text \<open>
  \<open>SendProtoMessage\<close> blocks between its steps, so it is three transitions of the
  manager: registering the request (up to the store into \<open>pendingCallbacks\<close>), the
  failed write, and the \<open>select\<close>. In the \<open>select\<close>, \<open>timerFired\<close> says that the
  \<open>time.After\<close> case is taken; otherwise the caller receives from its channel, and
  \<open>None\<close> means that it is still blocked.
\<close>

definition SendProtoMessage_register ::
  "('b, 'r) Codec \<Rightarrow> string \<Rightarrow> string \<Rightarrow> 'b \<Rightarrow> NetworkManager
     \<Rightarrow> (error + bytes \<times> seq64 \<times> chan) \<times> NetworkManager" where
  "SendProtoMessage_register codec serviceName methodName req nm =
     (if \<not> connected nm \<or> ws nm = None then (Inl ErrNotConnected, nm)
      else case EncodeMessage codec serviceName methodName req nm of
        (Inl e, nm1) \<Rightarrow> (Inl e, nm1)
      | (Inr (data, seq), nm1) \<Rightarrow>
          let callback = nextChan nm1 in
          (Inr (data, seq, callback),
           nm1\<lparr>nextChan := Suc callback,
                chans := (chans nm1)(callback := []),
                pendingCallbacks := (pendingCallbacks nm1)(seq \<mapsto> callback)\<rparr>))"

definition SendProtoMessage_writeFailed :: "seq64 \<Rightarrow> NetworkManager \<Rightarrow> error \<times> NetworkManager" where
  "SendProtoMessage_writeFailed seq nm =
     (ErrSend, nm\<lparr>pendingCallbacks := (pendingCallbacks nm)(seq := None)\<rparr>)"

definition SendProtoMessage_select ::
  "('b, 'r) Codec \<Rightarrow> chan \<Rightarrow> seq64 \<Rightarrow> bool \<Rightarrow> NetworkManager
     \<Rightarrow> ((error + 'r option) \<times> NetworkManager) option" where
  "SendProtoMessage_select codec callback seq timerFired nm =
     (if timerFired
      then Some (Inl ErrTimeout, nm\<lparr>pendingCallbacks := (pendingCallbacks nm)(seq := None)\<rparr>)
      else case chans nm callback of
        [] \<Rightarrow> None
      | response # rest \<Rightarrow>
          Some ((case Err response of
                   Some e \<Rightarrow> Inl e
                 | None \<Rightarrow>
                     if resp_Body response = [] then Inr None
                     else (case unmarshalReply codec (resp_Body response) of
                             None \<Rightarrow> Inl ErrUnmarshalResponse
                           | Some r \<Rightarrow> Inr (Some r))),
                nm\<lparr>chans := (chans nm)(callback := rest)\<rparr>))"

text \<open>The manager that \<open>init\<close> builds: every field is Go's zero value, the map is empty.\<close>

definition Net :: NetworkManager where
  "Net = \<lparr>ws = None, clientSeq = 0, serverSeq = 0, pendingCallbacks = Map.empty,
          userState = \<lparr>GID = 0, Name = [], Level = 0, Gold = 0, Exp = 0\<rparr>,
          connected = False, chans = (\<lambda>_. []), nextChan = 0, emitted = []\<rparr>"

text \<open>A session's requests, encoded one after the other: the sequence numbers that the
  calls assign, in order (the counter's value after each call), and the final manager.\<close>

fun EncodeMessages ::
  "('b, 'r) Codec \<Rightarrow> (string \<times> string \<times> 'b) list \<Rightarrow> NetworkManager
     \<Rightarrow> seq64 list \<times> NetworkManager" where
  "EncodeMessages codec [] nm = ([], nm)"
| "EncodeMessages codec ((serviceName, methodName, body) # reqs) nm =
     (let nm1 = snd (EncodeMessage codec serviceName methodName body nm);
          (seqs, nm2) = EncodeMessages codec reqs nm1
      in (clientSeq nm1 # seqs, nm2))"

text \<open>A codec for the closed examples: serialising always succeeds with an empty
  encoding, parsing a frame always fails.\<close>

definition plainCodec :: "(unit, unit) Codec" where
  "plainCodec = \<lparr>marshalBody = (\<lambda>_. Some []), marshalMessage = (\<lambda>_. Some []),
     unmarshalReply = (\<lambda>_. Some ()),
     unmarshalMessage = (\<lambda>_. None), unmarshalEvent = (\<lambda>_. None),
     unmarshalBasicNotify = (\<lambda>_. None)\<rparr>"

text \<open>A codec that parses every frame as the response to request 1 (no error code).\<close>

definition response1 :: Meta where
  "response1 = \<lparr>ServiceName = ''svc'', MethodName = ''m'', MessageType = 2, ClientSeq = 1,
                 ServerSeq = 7, ErrorCode = 0, ErrorMessage = []\<rparr>"

definition responseCodec :: "(unit, unit) Codec" where
  "responseCodec = plainCodec\<lparr>unmarshalMessage :=
     (\<lambda>_. Some \<lparr>msg_Meta = Some response1, msg_Body = [1, 2]\<rparr>)\<rparr>"

section \<open>The land-state analyzer (farm.go, friend.go, utils)\<close>

subsection \<open>Time and growth phases\<close>

text \<open>\<open>utils.ToTimeSec\<close> on an \<open>int64\<close>: a value that is not positive becomes 0, a value
  above \<open>10^12\<close> is taken as milliseconds. The dividend is positive, so Go's truncating
  division is \<open>div\<close>.\<close>

definition ToTimeSec :: "int \<Rightarrow> int" where
  "ToTimeSec n = (if n \<le> 0 then 0 else if 1000000000000 < n then n div 1000 else n)"

definition PlantPhaseMature :: int where
  "PlantPhaseMature = 6"

definition PlantPhaseDead :: int where
  "PlantPhaseDead = 7"

text \<open>The fields of \<open>plantpb.PlantPhaseInfo\<close>, \<open>plantpb.PlantInfo\<close> and
  \<open>plantpb.LandInfo\<close> that the analyzers read. A decoded repeated field never holds a
  nil message, so \<open>Phases\<close> is a list of phases; \<open>land\<close> and \<open>plant\<close> are tested
  for nil by the code and are options.\<close>

record PlantPhaseInfo =
  Phase :: int
  BeginTime :: int
  DryTime :: int
  WeedsTime :: int
  InsectTime :: int

record PlantInfo =
  pl_Id :: int
  Phases :: "PlantPhaseInfo list"
  DryNum :: int
  WeedOwners :: "int list"
  InsectOwners :: "int list"
  Stealable :: bool
  LeftFruitNum :: int

record LandInfo =
  ld_Id :: int
  Unlocked :: bool
  Plant :: "PlantInfo option"

text \<open>The test of the backward loop: the phase has a begin time and it has passed.\<close>

definition phaseBegun :: "int \<Rightarrow> PlantPhaseInfo \<Rightarrow> bool" where
  "phaseBegun nowSec p \<longleftrightarrow>
     (let beginTime = ToTimeSec (BeginTime p) in 0 < beginTime \<and> beginTime \<le> nowSec)"

text \<open>\<open>for i := len(phases) - 1; i >= 0; i--\<close>: the third argument is \<open>i + 1\<close>.\<close>

fun getCurrentPhase_loop :: "PlantPhaseInfo list \<Rightarrow> int \<Rightarrow> nat \<Rightarrow> PlantPhaseInfo option" where
  "getCurrentPhase_loop phases nowSec 0 = None"
| "getCurrentPhase_loop phases nowSec (Suc i) =
     (if phaseBegun nowSec (phases ! i) then Some (phases ! i)
      else getCurrentPhase_loop phases nowSec i)"

text \<open>\<open>FarmManager.getCurrentPhase\<close>; \<open>None\<close> is the nil result.\<close>

definition getCurrentPhase :: "PlantPhaseInfo list \<Rightarrow> int \<Rightarrow> PlantPhaseInfo option" where
  "getCurrentPhase phases nowSec =
     (if length phases = 0 then None
      else case getCurrentPhase_loop phases nowSec (length phases) of
        Some p \<Rightarrow> Some p
      | None \<Rightarrow> Some (phases ! 0))"

text \<open>\<open>FriendManager.getCurrentPhase\<close> has the same body.\<close>

definition Friend_getCurrentPhase :: "PlantPhaseInfo list \<Rightarrow> int \<Rightarrow> PlantPhaseInfo option" where
  "Friend_getCurrentPhase phases nowSec =
     (if length phases = 0 then None
      else case getCurrentPhase_loop phases nowSec (length phases) of
        Some p \<Rightarrow> Some p
      | None \<Rightarrow> Some (phases ! 0))"

text \<open>Phase selection as claim C3 words it, for comparison: scanning from the last
  entry backward, the latest phase whose \<open>beginTime\<close> is at most \<open>now\<close>; the first phase
  if none qualifies.\<close>

definition claimed_currentPhase :: "PlantPhaseInfo list \<Rightarrow> int \<Rightarrow> PlantPhaseInfo option" where
  "claimed_currentPhase phases now =
     (case find (\<lambda>p. BeginTime p \<le> now) (rev phases) of
        Some p \<Rightarrow> Some p
      | None \<Rightarrow> (case phases of [] \<Rightarrow> None | p # _ \<Rightarrow> Some p))"

subsection \<open>AnalyzeLands\<close>

record HarvestablePlant =
  hp_LandID :: int
  hp_PlantID :: int
  hp_Name :: string
  hp_Exp :: int

record LandStatus =
  Harvestable :: "int list"
  NeedWater :: "int list"
  NeedWeed :: "int list"
  NeedBug :: "int list"
  Growing :: "int list"
  Empty :: "int list"
  Dead :: "int list"
  HarvestableInfo :: "HarvestablePlant list"

text \<open>The static game data (\<open>Config.GetPlantName\<close>, \<open>Config.GetPlantExp\<close>) is a
  parameter.\<close>

record GameConfig =
  GetPlantName :: "int \<Rightarrow> string"
  GetPlantExp :: "int \<Rightarrow> int"

primrec containsInt64 :: "int list \<Rightarrow> int \<Rightarrow> bool" where
  "containsInt64 [] val = False"
| "containsInt64 (v # vs) val = (if v = val then True else containsInt64 vs val)"

text \<open>
  The two tests that both analyzers make for each of water, weeds and insects, on the
  list \<open>need\<close> of that kind: first the counter (\<open>plant.DryNum > 0\<close>, or a non-empty
  owner list), which appends the plot; then the threshold time of the current phase,
  which appends the plot unless the list holds it already.
\<close>

definition dualDetect :: "bool \<Rightarrow> int \<Rightarrow> int \<Rightarrow> int \<Rightarrow> int list \<Rightarrow> int list" where
  "dualDetect counted thresholdTime nowSec landID need =
     (let need1 = (if counted then need @ [landID] else need);
          t = ToTimeSec thresholdTime
      in if 0 < t \<and> t \<le> nowSec
         then (if \<not> containsInt64 need1 landID then need1 @ [landID] else need1)
         else need1)"

text \<open>The body of the loop over \<open>lands\<close>. The local list \<open>needs\<close> of the source is
  never read and is left out.\<close>

definition AnalyzeLands_step :: "GameConfig \<Rightarrow> int \<Rightarrow> LandStatus \<Rightarrow> LandInfo option \<Rightarrow> LandStatus" where
  "AnalyzeLands_step cfg nowSec result l =
     (case l of
        None \<Rightarrow> result
      | Some land \<Rightarrow>
          if \<not> Unlocked land then result
          else
            let landID = ld_Id land in
            case Plant land of
              None \<Rightarrow> result\<lparr>Empty := Empty result @ [landID]\<rparr>
            | Some plant \<Rightarrow>
                if length (Phases plant) = 0 then result\<lparr>Empty := Empty result @ [landID]\<rparr>
                else
                  (case getCurrentPhase (Phases plant) nowSec of
                     None \<Rightarrow> result\<lparr>Empty := Empty result @ [landID]\<rparr>
                   | Some currentPhase \<Rightarrow>
                       let phaseVal = Phase currentPhase in
                       if phaseVal = PlantPhaseDead
                         then result\<lparr>Dead := Dead result @ [landID]\<rparr>
                       else if phaseVal = PlantPhaseMature
                         then result\<lparr>Harvestable := Harvestable result @ [landID],
                                     HarvestableInfo := HarvestableInfo result @
                                       [\<lparr>hp_LandID = landID, hp_PlantID = pl_Id plant,
                                         hp_Name = GetPlantName cfg (pl_Id plant),
                                         hp_Exp = GetPlantExp cfg (pl_Id plant)\<rparr>]\<rparr>
                       else
                         result\<lparr>NeedWater := dualDetect (0 < DryNum plant)
                                     (DryTime currentPhase) nowSec landID (NeedWater result),
                                NeedWeed := dualDetect (0 < length (WeedOwners plant))
                                     (WeedsTime currentPhase) nowSec landID (NeedWeed result),
                                NeedBug := dualDetect (0 < length (InsectOwners plant))
                                     (InsectTime currentPhase) nowSec landID (NeedBug result),
                                Growing := Growing result @ [landID]\<rparr>))"

text \<open>The result that \<open>AnalyzeLands\<close> starts from: every list is empty.\<close>

definition emptyStatus :: LandStatus where
  "emptyStatus =
     \<lparr>Harvestable = [], NeedWater = [], NeedWeed = [], NeedBug = [], Growing = [],
      Empty = [], Dead = [], HarvestableInfo = []\<rparr>"

definition AnalyzeLands :: "GameConfig \<Rightarrow> int \<Rightarrow> LandInfo option list \<Rightarrow> LandStatus" where
  "AnalyzeLands cfg nowSec lands = foldl (AnalyzeLands_step cfg nowSec) emptyStatus lands"

text \<open>The ids of the snapshot's unlocked plots, in order.\<close>

definition unlockedIds :: "LandInfo option list \<Rightarrow> int list" where
  "unlockedIds lands = map ld_Id (filter Unlocked (List.map_filter id lands))"

subsection \<open>AnalyzeFriendLands\<close>

definition EnablePutBadThings :: bool where
  "EnablePutBadThings = False"

record StealablePlant =
  sp_LandID :: int
  sp_PlantID :: int
  sp_PlantName :: string
  sp_FruitNum :: int

record FriendLandStatus =
  CanSteal :: "int list"
  f_NeedWater :: "int list"
  f_NeedWeed :: "int list"
  f_NeedBug :: "int list"
  CanPutWeeds :: "int list"
  CanPutInsects :: "int list"
  StealInfo :: "StealablePlant list"




section \<open>Game requests over the session\<close>

text \<open>
  The managers reach the server through \<open>network.Net.SendProtoMessage\<close>. For them a call
  is a request that comes back as an error or as a decoded reply, while the world (the
  server and the connection) moves on: \<open>'w server\<close>. A request is the service method
  with the fields that the code sets; a reply holds the fields that the code reads.
\<close>

record OperationLimit =
  ol_Id :: int
  DayTimes :: int
  DayTimesLt :: int
  DayExpTimes :: int

datatype Request =
    ReqHarvest "int list" int bool
  | ReqWaterLand "int list" int
  | ReqWeedOut "int list" int
  | ReqInsecticide "int list" int
  | ReqPutWeeds "int list" int
  | ReqPutInsects "int list" int
  | ReqFertilize "int list" int
  | ReqRemovePlant "int list"
  | ReqPlant int "int list"
  | ReqBuyGoods int int int

record Reply =
  rp_OperationLimits :: "OperationLimit option list"
  rp_GetItems :: "int list"

type_synonym 'w server = "Request \<Rightarrow> 'w \<Rightarrow> (error + Reply) \<times> 'w"

text \<open>The same server, with the world extended by the list of the requests sent so
  far.\<close>

definition traced :: "'w server \<Rightarrow> ('w \<times> Request list) server" where
  "traced send req = (\<lambda>(w, tr). case send req w of (res, w') \<Rightarrow> (res, (w', tr @ [req])))"

text \<open>The same server, with the world extended by the list of the requests sent so far,
  each with its outcome: \<open>True\<close> when the call returned a reply, \<open>False\<close> when it
  returned an error.\<close>

definition isOK :: "error + Reply \<Rightarrow> bool" where
  "isOK res = (case res of Inl err \<Rightarrow> False | Inr resp \<Rightarrow> True)"

definition answered :: "'w server \<Rightarrow> ('w \<times> (Request \<times> bool) list) server" where
  "answered send req =
     (\<lambda>(w, tr). case send req w of (res, w') \<Rightarrow> (res, (w', tr @ [(req, isOK res)])))"

section \<open>Daily limits of the friend manager (friend.go)\<close>

type_synonym opid = "32 word"

definition OpPutWeeds :: opid where "OpPutWeeds = 10003"
definition OpPutInsects :: opid where "OpPutInsects = 10004"
definition OpWeedOut :: opid where "OpWeedOut = 10005"
definition OpInsecticide :: opid where "OpInsecticide = 10006"
definition OpWaterLand :: opid where "OpWaterLand = 10007"
definition OpSteal :: opid where "OpSteal = 10008"

definition HelpOnlyWithExp :: bool where
  "HelpOnlyWithExp = True"

text \<open>The fields of \<open>FriendManager\<close> behind the daily limits. \<open>operationLimits\<close> maps to
  pointers, which the code tests for nil. \<open>lastResetDate\<close> is a date key
  \<open>YYYY-MM-DD\<close>; the local date (\<open>getLocalDateKey()\<close>) is an argument.\<close>

record FriendManager =
  lastResetDate :: string
  operationLimits :: "opid \<rightharpoonup> OperationLimit option"
  expTracker :: "opid \<rightharpoonup> int"
  expExhausted :: "opid \<rightharpoonup> bool"

text \<open>Reading a \<open>map[int32]bool\<close>: a missing key reads as false.\<close>

definition readFlag :: "(opid \<rightharpoonup> bool) \<Rightarrow> opid \<Rightarrow> bool" where
  "readFlag m k = (case m k of None \<Rightarrow> False | Some b \<Rightarrow> b)"

text \<open>The manager that \<open>init()\<close> builds: the three maps are empty, and the reset date is
  the local date of that moment.\<close>

definition initFriendManager :: "string \<Rightarrow> FriendManager" where
  "initFriendManager today =
     \<lparr>lastResetDate = today, operationLimits = Map.empty, expTracker = Map.empty,
      expExhausted = Map.empty\<rparr>"

definition checkDailyReset :: "string \<Rightarrow> FriendManager \<Rightarrow> FriendManager" where
  "checkDailyReset today fm =
     (if today \<noteq> lastResetDate fm
      then fm\<lparr>lastResetDate := today, operationLimits := Map.empty, expTracker := Map.empty,
              expExhausted := Map.empty\<rparr>
      else fm)"

text \<open>The loop body of \<open>updateOperationLimits\<close>; \<open>int32(limit.Id)\<close> truncates to 32
  bits.\<close>

definition updateOperationLimits_step :: "FriendManager \<Rightarrow> OperationLimit option \<Rightarrow> FriendManager" where
  "updateOperationLimits_step fm l =
     (case l of
        None \<Rightarrow> fm
      | Some limit \<Rightarrow>
          let opId = (word_of_int (ol_Id limit) :: opid);
              fm1 = fm\<lparr>operationLimits := (operationLimits fm)(opId \<mapsto> Some limit)\<rparr>
          in if HelpOnlyWithExp then
               (case expTracker fm1 opId of
                  None \<Rightarrow> fm1
                | Some beforeExp \<Rightarrow>
                    if DayExpTimes limit \<le> beforeExp then
                      (if \<not> readFlag (expExhausted fm1) opId
                       then fm1\<lparr>expExhausted := (expExhausted fm1)(opId \<mapsto> True)\<rparr>
                       else fm1)
                    else fm1)
             else fm1)"

definition updateOperationLimits :: "OperationLimit option list \<Rightarrow> FriendManager \<Rightarrow> FriendManager" where
  "updateOperationLimits limits fm = foldl updateOperationLimits_step fm limits"

definition canGetExp :: "opid \<Rightarrow> FriendManager \<Rightarrow> bool" where
  "canGetExp opId fm = (if \<not> HelpOnlyWithExp then True else \<not> readFlag (expExhausted fm) opId)"

definition trackExpBefore :: "opid \<Rightarrow> FriendManager \<Rightarrow> FriendManager" where
  "trackExpBefore opId fm =
     (if \<not> HelpOnlyWithExp then fm
      else case operationLimits fm opId of
        Some (Some limit) \<Rightarrow> fm\<lparr>expTracker := (expTracker fm)(opId \<mapsto> DayExpTimes limit)\<rparr>
      | _ \<Rightarrow> fm)"

definition isLimitReached :: "opid \<Rightarrow> FriendManager \<Rightarrow> bool" where
  "isLimitReached opId fm =
     (case operationLimits fm opId of
        Some (Some limit) \<Rightarrow>
          if 0 < DayTimesLt limit \<and> DayTimesLt limit \<le> DayTimes limit then True else False
      | _ \<Rightarrow> False)"

subsection \<open>Operations on a friend's farm\<close>

text \<open>\<open>StealFromFriend\<close>, \<open>PutWeeds\<close> and \<open>PutInsects\<close> pass the limits of a successful
  reply to \<open>updateOperationLimits\<close> (a nil list and an empty list both update nothing).
  The three help calls go to the farm manager's \<open>WaterLand\<close>, \<open>WeedOut\<close> and
  \<open>Insecticide\<close>, which return the reply as it is.\<close>

definition StealFromFriend ::
  "'w server \<Rightarrow> int list \<Rightarrow> int \<Rightarrow> FriendManager \<times> 'w \<Rightarrow> (error + Reply) \<times> FriendManager \<times> 'w" where
  "StealFromFriend send landIds hostGID = (\<lambda>(fm, w).
     case send (ReqHarvest landIds hostGID False) w of
       (Inl err, w') \<Rightarrow> (Inl err, fm, w')
     | (Inr resp, w') \<Rightarrow> (Inr resp, updateOperationLimits (rp_OperationLimits resp) fm, w'))"

definition PutWeeds ::
  "'w server \<Rightarrow> int list \<Rightarrow> int \<Rightarrow> FriendManager \<times> 'w \<Rightarrow> (error + Reply) \<times> FriendManager \<times> 'w" where
  "PutWeeds send landIds hostGID = (\<lambda>(fm, w).
     case send (ReqPutWeeds landIds hostGID) w of
       (Inl err, w') \<Rightarrow> (Inl err, fm, w')
     | (Inr resp, w') \<Rightarrow> (Inr resp, updateOperationLimits (rp_OperationLimits resp) fm, w'))"

definition PutInsects ::
  "'w server \<Rightarrow> int list \<Rightarrow> int \<Rightarrow> FriendManager \<times> 'w \<Rightarrow> (error + Reply) \<times> FriendManager \<times> 'w" where
  "PutInsects send landIds hostGID = (\<lambda>(fm, w).
     case send (ReqPutInsects landIds hostGID) w of
       (Inl err, w') \<Rightarrow> (Inl err, fm, w')
     | (Inr resp, w') \<Rightarrow> (Inr resp, updateOperationLimits (rp_OperationLimits resp) fm, w'))"

definition HelpWaterLand :: "'w server \<Rightarrow> int list \<Rightarrow> int \<Rightarrow> 'w \<Rightarrow> (error + Reply) \<times> 'w" where
  "HelpWaterLand send landIds hostGID w = send (ReqWaterLand landIds hostGID) w"

definition HelpWeedOut :: "'w server \<Rightarrow> int list \<Rightarrow> int \<Rightarrow> 'w \<Rightarrow> (error + Reply) \<times> 'w" where
  "HelpWeedOut send landIds hostGID w = send (ReqWeedOut landIds hostGID) w"

definition HelpInsecticide :: "'w server \<Rightarrow> int list \<Rightarrow> int \<Rightarrow> 'w \<Rightarrow> (error + Reply) \<times> 'w" where
  "HelpInsecticide send landIds hostGID w = send (ReqInsecticide landIds hostGID) w"

text \<open>The loop over \<open>status.StealInfo\<close>: it stops when the steal limit is reached, and
  goes on to the next plot after a failed call. The friend's name is used for log lines
  only and is not an argument here.\<close>

fun steal_loop ::
  "'w server \<Rightarrow> int \<Rightarrow> StealablePlant list \<Rightarrow> FriendManager \<times> 'w \<Rightarrow> FriendManager \<times> 'w" where
  "steal_loop send friendGid [] (fm, w) = (fm, w)"
| "steal_loop send friendGid (info # rest) (fm, w) =
     (if isLimitReached OpSteal fm then (fm, w)
      else case StealFromFriend send [sp_LandID info] friendGid (fm, w) of
        (_, fm', w') \<Rightarrow> steal_loop send friendGid rest (fm', w'))"

text \<open>The loop of a help block, the same for water, weeds and insects: \<open>helpCall\<close> is
  the help call of the kind. The manager is only read.\<close>

fun help_loop ::
  "('w server \<Rightarrow> int list \<Rightarrow> int \<Rightarrow> 'w \<Rightarrow> (error + Reply) \<times> 'w) \<Rightarrow> 'w server \<Rightarrow> opid \<Rightarrow> int
     \<Rightarrow> int list \<Rightarrow> FriendManager \<Rightarrow> 'w \<Rightarrow> 'w" where
  "help_loop helpCall send opId friendGid [] fm w = w"
| "help_loop helpCall send opId friendGid (landID # rest) fm w =
     (if isLimitReached opId fm then w
      else case helpCall send [landID] friendGid w of
        (_, w') \<Rightarrow> help_loop helpCall send opId friendGid rest fm w')"

definition help_block ::
  "('w server \<Rightarrow> int list \<Rightarrow> int \<Rightarrow> 'w \<Rightarrow> (error + Reply) \<times> 'w) \<Rightarrow> 'w server \<Rightarrow> opid \<Rightarrow> int
     \<Rightarrow> int list \<Rightarrow> FriendManager \<times> 'w \<Rightarrow> FriendManager \<times> 'w" where
  "help_block helpCall send opId friendGid need = (\<lambda>(fm, w).
     if 0 < length need \<and> canGetExp opId fm \<and> \<not> isLimitReached opId fm
     then let fm1 = trackExpBefore opId fm
          in (fm1, help_loop helpCall send opId friendGid need fm1 w)
     else (fm, w))"

definition performFriendOperations ::
  "'w server \<Rightarrow> int \<Rightarrow> FriendLandStatus \<Rightarrow> FriendManager \<times> 'w \<Rightarrow> FriendManager \<times> 'w" where
  "performFriendOperations send friendGid status s0 =
     (let s1 = (if 0 < length (CanSteal status) \<and> \<not> isLimitReached OpSteal (fst s0)
                then steal_loop send friendGid (StealInfo status) s0 else s0);
          s2 = help_block HelpWaterLand send OpWaterLand friendGid (f_NeedWater status) s1;
          s3 = help_block HelpWeedOut send OpWeedOut friendGid (f_NeedWeed status) s2;
          s4 = help_block HelpInsecticide send OpInsecticide friendGid (f_NeedBug status) s3
      in if EnablePutBadThings then
           (let s5 = (if 0 < length (CanPutWeeds status) \<and> \<not> isLimitReached OpPutWeeds (fst s4)
                      then (case PutWeeds send [CanPutWeeds status ! 0] friendGid s4 of
                              (_, fm', w') \<Rightarrow> (fm', w'))
                      else s4)
            in if 0 < length (CanPutInsects status) \<and> \<not> isLimitReached OpPutInsects (fst s5)
               then (case PutInsects send [CanPutInsects status ! 0] friendGid s5 of
                       (_, fm', w') \<Rightarrow> (fm', w'))
               else s5)
         else s4)"

text \<open>A snapshot for the closed examples, at time 1000: a nil entry, a locked plot, an
  empty plot, a dead plant, a mature plant, a growing plant that is dry by its counter
  (threshold in the future), a growing plant with no need, and a growing plant whose
  counter is 0 and whose dry threshold has passed.\<close>

definition examplePhase :: "int \<Rightarrow> int \<Rightarrow> int \<Rightarrow> PlantPhaseInfo" where
  "examplePhase ordinal begin dry =
     \<lparr>Phase = ordinal, BeginTime = begin, DryTime = dry, WeedsTime = 0, InsectTime = 0\<rparr>"

definition examplePlant :: "PlantPhaseInfo list \<Rightarrow> int \<Rightarrow> PlantInfo" where
  "examplePlant phases dry =
     \<lparr>pl_Id = 1020002, Phases = phases, DryNum = dry, WeedOwners = [], InsectOwners = [],
      Stealable = False, LeftFruitNum = 0\<rparr>"

definition exampleLands :: "LandInfo option list" where
  "exampleLands =
     [None,
      Some \<lparr>ld_Id = 1, Unlocked = False, Plant = None\<rparr>,
      Some \<lparr>ld_Id = 2, Unlocked = True, Plant = None\<rparr>,
      Some \<lparr>ld_Id = 3, Unlocked = True, Plant = Some (examplePlant [examplePhase 7 500 0] 0)\<rparr>,
      Some \<lparr>ld_Id = 4, Unlocked = True, Plant = Some (examplePlant [examplePhase 6 500 0] 0)\<rparr>,
      Some \<lparr>ld_Id = 5, Unlocked = True, Plant = Some (examplePlant [examplePhase 2 500 2000] 1)\<rparr>,
      Some \<lparr>ld_Id = 6, Unlocked = True, Plant = Some (examplePlant [examplePhase 2 500 0] 0)\<rparr>,
      Some \<lparr>ld_Id = 7, Unlocked = True, Plant = Some (examplePlant [examplePhase 2 500 900] 0)\<rparr>]"

definition exampleConfig :: GameConfig where
  "exampleConfig = \<lparr>GetPlantName = (\<lambda>_. ''radish''), GetPlantExp = (\<lambda>_. 1)\<rparr>"

section \<open>Planting on the own farm (farm.go)\<close>

definition NormalFertilizerID :: int where
  "NormalFertilizerID = 1011"

text \<open>\<open>PlantSeeds\<close> goes on to the next plot after a failed call (\<open>continue\<close>);
  \<open>Fertilize\<close> leaves the loop at the first failed call (\<open>break\<close>). Both return a nil
  error with the count, so the count is the result.\<close>

fun PlantSeeds_loop :: "'w server \<Rightarrow> int \<Rightarrow> int list \<Rightarrow> nat \<Rightarrow> 'w \<Rightarrow> nat \<times> 'w" where
  "PlantSeeds_loop send seedID [] successCount w = (successCount, w)"
| "PlantSeeds_loop send seedID (landId # rest) successCount w =
     (case send (ReqPlant seedID [landId]) w of
        (Inl err, w') \<Rightarrow> PlantSeeds_loop send seedID rest successCount w'
      | (Inr resp, w') \<Rightarrow> PlantSeeds_loop send seedID rest (Suc successCount) w')"

definition PlantSeeds :: "'w server \<Rightarrow> int \<Rightarrow> int list \<Rightarrow> 'w \<Rightarrow> nat \<times> 'w" where
  "PlantSeeds send seedID landIds w = PlantSeeds_loop send seedID landIds 0 w"

fun Fertilize_loop :: "'w server \<Rightarrow> int \<Rightarrow> int list \<Rightarrow> nat \<Rightarrow> 'w \<Rightarrow> nat \<times> 'w" where
  "Fertilize_loop send fertilizerID [] successCount w = (successCount, w)"
| "Fertilize_loop send fertilizerID (landId # rest) successCount w =
     (case send (ReqFertilize [landId] fertilizerID) w of
        (Inl err, w') \<Rightarrow> (successCount, w')
      | (Inr resp, w') \<Rightarrow> Fertilize_loop send fertilizerID rest (Suc successCount) w')"

definition Fertilize :: "'w server \<Rightarrow> int list \<Rightarrow> int \<Rightarrow> 'w \<Rightarrow> nat \<times> 'w" where
  "Fertilize send landIds fertilizerID w = Fertilize_loop send fertilizerID landIds 0 w"

subsection \<open>AutoPlantEmptyLands\<close>

text \<open>Go's \<open>int64\<close> arithmetic on integers: the result of \<open>*\<close> and \<open>/\<close> wrapped into
  the 64-bit range, and \<open>/\<close> truncating towards zero.\<close>

definition int64 :: "int \<Rightarrow> int" where
  "int64 x = (x + 2 ^ 63) mod 2 ^ 64 - 2 ^ 63"

definition quo :: "int \<Rightarrow> int \<Rightarrow> int" where
  "quo a b = sgn a * sgn b * (\<bar>a\<bar> div \<bar>b\<bar>)"

record SeedInfo =
  si_GoodsId :: int
  si_SeedId :: int
  si_Price :: int
  si_RequiredLevel :: int

datatype farm_error =
    ErrFindSeed error
  | ErrNoSeed
  | ErrNotEnoughGold
  | ErrBuyFailed error
  | PanicDivideByZero
  | PanicSliceBounds

text \<open>
  What \<open>AutoPlantEmptyLands\<close> uses besides the server: \<open>FindBestSeed\<close> (the shop query
  and the choice of the seed, of which only the returned \<open>SeedInfo\<close> matters here), and
  the player's gold as the shared user state shows it when it is read.
\<close>

record 'w FarmEnv =
  env_send :: "'w server"
  env_FindBestSeed :: "int \<Rightarrow> 'w \<Rightarrow> (error + SeedInfo option) \<times> 'w"
  env_Gold :: "'w \<Rightarrow> int"

definition tracedEnv :: "'w FarmEnv \<Rightarrow> ('w \<times> Request list) FarmEnv" where
  "tracedEnv env =
     \<lparr>env_send = traced (env_send env),
      env_FindBestSeed = (\<lambda>n (w, tr). case env_FindBestSeed env n w of (r, w') \<Rightarrow> (r, (w', tr))),
      env_Gold = (\<lambda>(w, tr). env_Gold env w)\<rparr>"

text \<open>Step 1: the empty plots, and the dead plots if their removal succeeds.\<close>

definition AutoPlant_removeDead :: "'w server \<Rightarrow> int list \<Rightarrow> int list \<Rightarrow> 'w \<Rightarrow> int list \<times> 'w" where
  "AutoPlant_removeDead send deadLandIds emptyLandIds w =
     (let landsToPlant = emptyLandIds in
      if 0 < length deadLandIds then
        (case send (ReqRemovePlant deadLandIds) w of
           (Inl err, w') \<Rightarrow> (landsToPlant, w')
         | (Inr resp, w') \<Rightarrow> (landsToPlant @ deadLandIds, w'))
      else (landsToPlant, w))"

text \<open>
  Step 3, the budget check: the plots to plant on, or the error. A division by zero is
  a panic. For \<open>landsToPlant[:canBuy]\<close> Go allows a bound up to the capacity of the
  slice and panics beyond it; a list has no capacity, and \<open>PanicSliceBounds\<close> stands
  for every bound above the length, where the code either panics or goes on with the
  plot ids that the backing array holds behind the list. The bound is above the length
  only if the price is not positive or the gold is negative.
\<close>

definition AutoPlant_budget :: "int \<Rightarrow> int \<Rightarrow> int list \<Rightarrow> farm_error + int list" where
  "AutoPlant_budget price gold landsToPlant =
     (let needCount = int (length landsToPlant);
          totalCost = int64 (price * needCount)
      in if gold < totalCost then
           (if price = 0 then Inl PanicDivideByZero
            else let canBuy = int64 (quo gold price) in
              if canBuy \<le> 0 then Inl ErrNotEnoughGold
              else if int (length landsToPlant) < canBuy then Inl PanicSliceBounds
              else Inr (take (nat canBuy) landsToPlant))
         else Inr landsToPlant)"

text \<open>Steps 3 to 5 after the budget check: buy, plant, fertilize the first \<open>planted\<close>
  plots.\<close>

definition AutoPlant_buyPlantFertilize ::
  "'w server \<Rightarrow> SeedInfo \<Rightarrow> int list \<Rightarrow> 'w \<Rightarrow> farm_error option \<times> 'w" where
  "AutoPlant_buyPlantFertilize send bestSeed landsToPlant w =
     (case send (ReqBuyGoods (si_GoodsId bestSeed) (int (length landsToPlant)) (si_Price bestSeed)) w of
        (Inl err, w1) \<Rightarrow> (Some (ErrBuyFailed err), w1)
      | (Inr buyReply, w1) \<Rightarrow>
          let actualSeedId =
                (if 0 < length (rp_GetItems buyReply) \<and> 0 < rp_GetItems buyReply ! 0
                 then rp_GetItems buyReply ! 0 else si_SeedId bestSeed);
              (planted, w2) = PlantSeeds send actualSeedId landsToPlant w1
          in if 0 < planted
             then (let plantedLands = take planted landsToPlant;
                       (fertilized, w3) = Fertilize send plantedLands NormalFertilizerID w2
                   in (None, w3))
             else (None, w2))"

definition AutoPlantEmptyLands ::
  "'w FarmEnv \<Rightarrow> int list \<Rightarrow> int list \<Rightarrow> int \<Rightarrow> 'w \<Rightarrow> farm_error option \<times> 'w" where
  "AutoPlantEmptyLands env deadLandIds emptyLandIds unlockedCount w =
     (case AutoPlant_removeDead (env_send env) deadLandIds emptyLandIds w of
        (landsToPlant, w1) \<Rightarrow>
          if length landsToPlant = 0 then (None, w1)
          else
            (case env_FindBestSeed env unlockedCount w1 of
               (Inl err, w2) \<Rightarrow> (Some (ErrFindSeed err), w2)
             | (Inr None, w2) \<Rightarrow> (Some ErrNoSeed, w2)
             | (Inr (Some bestSeed), w2) \<Rightarrow>
                 (case AutoPlant_budget (si_Price bestSeed) (env_Gold env w2) landsToPlant of
                    Inl e \<Rightarrow> (Some e, w2)
                  | Inr lands \<Rightarrow> AutoPlant_buyPlantFertilize (env_send env) bestSeed lands w2)))"

text \<open>For the closed examples: a server that answers every request with an empty reply,
  except that fertilizing plot 1 and planting on plot 1 fail; a shop whose best seed
  costs 10; a player with 5 gold, and one with 25.\<close>

definition exampleServer :: "unit server" where
  "exampleServer req w =
     (if (case req of ReqFertilize ids f \<Rightarrow> ids = [1] | ReqPlant seed ids \<Rightarrow> ids = [1]
          | _ \<Rightarrow> False)
      then Inl ErrTimeout
      else Inr \<lparr>rp_OperationLimits = [], rp_GetItems = []\<rparr>, w)"

definition exampleSeed :: SeedInfo where
  "exampleSeed = \<lparr>si_GoodsId = 7, si_SeedId = 20002, si_Price = 10, si_RequiredLevel = 1\<rparr>"

definition exampleEnv :: "int \<Rightarrow> unit FarmEnv" where
  "exampleEnv gold =
     \<lparr>env_send = exampleServer, env_FindBestSeed = (\<lambda>n w. (Inr (Some exampleSeed), w)),
      env_Gold = (\<lambda>w. gold)\<rparr>"

text \<open>The kinds of requests, for statements about the requests sent.\<close>

definition isHarvest :: "Request \<Rightarrow> bool" where
  "isHarvest r = (case r of ReqHarvest _ _ _ \<Rightarrow> True | _ \<Rightarrow> False)"
definition isWater :: "Request \<Rightarrow> bool" where
  "isWater r = (case r of ReqWaterLand _ _ \<Rightarrow> True | _ \<Rightarrow> False)"
definition isWeed :: "Request \<Rightarrow> bool" where
  "isWeed r = (case r of ReqWeedOut _ _ \<Rightarrow> True | _ \<Rightarrow> False)"
definition isInsect :: "Request \<Rightarrow> bool" where
  "isInsect r = (case r of ReqInsecticide _ _ \<Rightarrow> True | _ \<Rightarrow> False)"


text \<open>A friend manager for the closed examples: the water limit of the day is
  reached, and 5 is the tracked experience counter of watering.\<close>

definition exampleManager :: FriendManager where
  "exampleManager =
     \<lparr>lastResetDate = ''2024-05-01'',
      operationLimits = [OpWaterLand \<mapsto> Some \<lparr>ol_Id = 10007, DayTimes = 3, DayTimesLt = 3, DayExpTimes = 5\<rparr>],
      expTracker = [OpWaterLand \<mapsto> 5],
      expExhausted = Map.empty\<rparr>"

text \<open>
  A server on which watering no longer grants experience: every request succeeds, and
  every reply reports the limits of watering, with the number of waterings of the day
  (the world of this server) and a day-experience counter that stays at 5. A first visit
  to a friend with a plot to steal from and two dry plots, a second visit to a friend
  with two dry plots, and the manager between the two visits.
\<close>

definition cappedLimit :: "nat \<Rightarrow> OperationLimit" where
  "cappedLimit n = \<lparr>ol_Id = 10007, DayTimes = int n, DayTimesLt = 10, DayExpTimes = 5\<rparr>"

definition cappedServer :: "nat server" where
  "cappedServer req n =
     (let n' = (if isWater req then Suc n else n)
      in (Inr \<lparr>rp_OperationLimits = [Some (cappedLimit n')], rp_GetItems = []\<rparr>, n'))"

definition stealAndWaterStatus :: FriendLandStatus where
  "stealAndWaterStatus =
     \<lparr>CanSteal = [7], f_NeedWater = [1, 2], f_NeedWeed = [], f_NeedBug = [], CanPutWeeds = [],
      CanPutInsects = [],
      StealInfo = [\<lparr>sp_LandID = 7, sp_PlantID = 1020002, sp_PlantName = ''radish'',
                    sp_FruitNum = 3\<rparr>]\<rparr>"

definition waterStatus :: FriendLandStatus where
  "waterStatus =
     \<lparr>CanSteal = [], f_NeedWater = [3, 4], f_NeedWeed = [], f_NeedBug = [], CanPutWeeds = [],
      CanPutInsects = [], StealInfo = []\<rparr>"

definition afterFirstVisit :: FriendManager where
  "afterFirstVisit =
     \<lparr>lastResetDate = ''2024-05-01'',
      operationLimits = [OpWaterLand \<mapsto> Some (cappedLimit 0)],
      expTracker = [OpWaterLand \<mapsto> 5],
      expExhausted = Map.empty\<rparr>"


section \<open>Frame of the BasicNotify handler\<close>

lemma handleBasicNotify_other_fields:
  "handleBasicNotify codec body nm = nm\<lparr>userState := userState (handleBasicNotify codec body nm)\<rparr>"
  by (simp add: handleBasicNotify_def Let_def split: option.splits)

text \<open>
  Claim C10. Handling a BasicNotify push overwrites each of level, gold and experience
  exactly when the notification carries a strictly positive value for that field; a zero
  or negative field leaves the stored value as it was. GID and name are never changed,
  nothing outside the user state is changed, and a body that does not parse or carries
  no \<open>Basic\<close> part changes nothing.
\<close>

theorem handleBasicNotify_frame:
  "GID (userState (handleBasicNotify codec body nm)) = GID (userState nm) \<and>
   Name (userState (handleBasicNotify codec body nm)) = Name (userState nm) \<and>
   handleBasicNotify codec body nm = nm\<lparr>userState := userState (handleBasicNotify codec body nm)\<rparr> \<and>
   (case notifiedBasic codec body of
      None \<Rightarrow> handleBasicNotify codec body nm = nm
    | Some b \<Rightarrow>
        Level (userState (handleBasicNotify codec body nm)) =
          (if 0 < bi_Level b then bi_Level b else Level (userState nm)) \<and>
        Gold (userState (handleBasicNotify codec body nm)) =
          (if 0 < bi_Gold b then bi_Gold b else Gold (userState nm)) \<and>
        Exp (userState (handleBasicNotify codec body nm)) =
          (if 0 < bi_Exp b then bi_Exp b else Exp (userState nm)))"
  by (simp add: handleBasicNotify_def notifiedBasic_def Let_def UpdateLevel_def
      UpdateGold_def UpdateExp_def split: option.splits)

section \<open>Correlation of responses\<close>

lemma handleMessage_response:
  assumes "unmarshalMessage codec data = Some msg" "msg_Meta msg = Some meta"
    "MessageType meta = 2"
  shows "handleMessage codec data nm =
     (let nm1 = (if 0 < sint (ServerSeq meta) then nm\<lparr>serverSeq := ServerSeq meta\<rparr> else nm) in
      case pendingCallbacks nm (ClientSeq meta) of
        None \<Rightarrow> nm1
      | Some callback \<Rightarrow>
          nm1\<lparr>pendingCallbacks := (pendingCallbacks nm)(ClientSeq meta := None),
               chans := (chans nm)(callback := chans nm callback @ [responseOf msg meta])\<rparr>)"
  using assms by (simp add: handleMessage_def Let_def chan_send_def split: option.splits)

text \<open>
  Claim C1. When a Response frame arrives, the pending entry of its \<open>clientSeq\<close> is
  looked up and removed, and the response is delivered to that entry's channel, once;
  with no pending entry nothing is delivered to any channel. After the frame the
  sequence number has no entry, so a second response with the same number delivers
  nothing, and neither does a response that arrives after the caller's timeout has
  removed the entry.
\<close>

theorem handleMessage_response_at_most_once:
  assumes "unmarshalMessage codec data = Some msg" "msg_Meta msg = Some meta"
    "MessageType meta = 2"
  shows
   "(case pendingCallbacks nm (ClientSeq meta) of
       None \<Rightarrow> chans (handleMessage codec data nm) = chans nm \<and>
               pendingCallbacks (handleMessage codec data nm) = pendingCallbacks nm
     | Some callback \<Rightarrow>
         chans (handleMessage codec data nm) =
           (chans nm)(callback := chans nm callback @ [responseOf msg meta]) \<and>
         pendingCallbacks (handleMessage codec data nm) =
           (pendingCallbacks nm)(ClientSeq meta := None)) \<and>
    pendingCallbacks (handleMessage codec data nm) (ClientSeq meta) = None \<and>
    chans (handleMessage codec data (handleMessage codec data nm)) =
      chans (handleMessage codec data nm) \<and>
    (\<forall>callback. case SendProtoMessage_select codec callback (ClientSeq meta) True nm of
        None \<Rightarrow> False
      | Some (res, nm') \<Rightarrow>
          res = Inl ErrTimeout \<and> pendingCallbacks nm' (ClientSeq meta) = None \<and>
          chans (handleMessage codec data nm') = chans nm)"
  by (simp add: handleMessage_response[OF assms] Let_def SendProtoMessage_select_def
      split: option.splits)

theorem handleMessage_response_at_most_once_witness:
  "unmarshalMessage responseCodec [] = Some \<lparr>msg_Meta = Some response1, msg_Body = [1, 2]\<rparr> \<and>
   MessageType response1 = 2 \<and>
   pendingCallbacks (Net\<lparr>pendingCallbacks := [1 \<mapsto> 0]\<rparr>) (ClientSeq response1) = Some 0 \<and>
   chans (handleMessage responseCodec [] (Net\<lparr>pendingCallbacks := [1 \<mapsto> 0]\<rparr>)) 0 =
     [\<lparr>resp_Body = [1, 2], resp_Meta = Some response1, Err = None\<rparr>] \<and>
   pendingCallbacks (handleMessage responseCodec [] (Net\<lparr>pendingCallbacks := [1 \<mapsto> 0]\<rparr>)) 1 = None \<and>
   chans (handleMessage responseCodec []
            (handleMessage responseCodec [] (Net\<lparr>pendingCallbacks := [1 \<mapsto> 0]\<rparr>))) 0 =
     [\<lparr>resp_Body = [1, 2], resp_Meta = Some response1, Err = None\<rparr>]"
  using handleMessage_response_at_most_once
    [of responseCodec "[]" "\<lparr>msg_Meta = Some response1, msg_Body = [1, 2]\<rparr>" response1
        "Net\<lparr>pendingCallbacks := [1 \<mapsto> 0]\<rparr>"]
  by (simp add: responseCodec_def plainCodec_def response1_def Net_def responseOf_def)

section \<open>Sequence numbers\<close>

lemma sint_succ:
  assumes "sint (c :: 64 word) < 2 ^ 63 - 1"
  shows "sint (c + 1) = sint c + 1"
proof -
  have lo: "- (2 ^ 63) \<le> sint c" using sint_ge[of c] by simp
  have "sint (c + 1) = signed_take_bit 63 (sint c + 1)"
    by (simp add: sint_word_ariths)
  also have "\<dots> = sint c + 1"
    using assms lo by (intro signed_take_bit_int_eq_self) auto
  finally show ?thesis .
qed

lemma EncodeMessage_clientSeq:
  "clientSeq (snd (EncodeMessage codec s m b nm)) = clientSeq nm + 1"
  by (simp add: EncodeMessage_def Let_def split: option.splits)

lemma EncodeMessage_returns_counter:
  "fst (EncodeMessage codec s m b nm) = Inr (data, seq) \<Longrightarrow>
   seq = clientSeq (snd (EncodeMessage codec s m b nm))"
  by (auto simp add: EncodeMessage_def Let_def split: option.splits)

lemma EncodeMessages_increasing:
  "sint (clientSeq nm) + int (length reqs) < 2 ^ 63 \<Longrightarrow>
   sorted_wrt (<) (map sint (fst (EncodeMessages codec reqs nm))) \<and>
   (\<forall>s \<in> set (fst (EncodeMessages codec reqs nm)). sint (clientSeq nm) < sint s)"
proof (induction reqs arbitrary: nm)
  case Nil
  then show ?case by simp
next
  case (Cons r reqs)
  obtain s m b where r: "r = (s, m, b)" by (cases r)
  let ?nm1 = "snd (EncodeMessage codec s m b nm)"
  have c1: "sint (clientSeq ?nm1) = sint (clientSeq nm) + 1"
    using Cons.prems by (simp add: EncodeMessage_clientSeq sint_succ)
  have "sint (clientSeq ?nm1) + int (length reqs) < 2 ^ 63"
    using Cons.prems c1 by simp
  from Cons.IH[OF this] c1 show ?case
    by (fastforce simp add: r Let_def case_prod_beta)
qed

lemma EncodeMessages_seqs:
  "fst (EncodeMessages codec reqs nm) =
   map (\<lambda>i. clientSeq nm + of_nat i) [1..<Suc (length reqs)]"
proof (induction reqs arbitrary: nm)
  case Nil
  then show ?case by simp
next
  case (Cons r reqs)
  obtain s m b where r: "r = (s, m, b)" by (cases r)
  have "map (\<lambda>i. clientSeq nm + of_nat i) [1..<Suc (length (r # reqs))]
      = (clientSeq nm + 1) #
        map (\<lambda>i. clientSeq nm + of_nat i) [Suc (Suc 0)..<Suc (Suc (length reqs))]"
    by (simp add: upt_conv_Cons del: upt_Suc)
  also have "[Suc (Suc 0)..<Suc (Suc (length reqs))] = map Suc [1..<Suc (length reqs)]"
    by (simp add: map_Suc_upt del: upt_Suc)
  finally show ?case
    using Cons.IH[of "snd (EncodeMessage codec s m b nm)"]
    by (simp add: r Let_def EncodeMessage_clientSeq o_def add.assoc case_prod_beta
        del: upt_Suc)
qed

text \<open>
  Claim C2, as stated, fails on the 64-bit counter: the request encoded when the counter
  stands at \<open>2^63 - 1\<close> is assigned \<open>- 2^63\<close>, below every number assigned before. The
  first statement is that single call; the second is the session of \<open>2^63\<close> requests
  from the initial manager, whose numbers are not increasing.
\<close>

theorem EncodeMessage_wraps_counterexample:
  "sint (clientSeq (Net\<lparr>clientSeq := 0x7FFFFFFFFFFFFFFF\<rparr>)) = 2 ^ 63 - 1 \<and>
   fst (EncodeMessage plainCodec [] [] () (Net\<lparr>clientSeq := 0x7FFFFFFFFFFFFFFF\<rparr>)) =
     Inr ([], 0x8000000000000000) \<and>
   sint (0x8000000000000000 :: 64 word) = - (2 ^ 63) \<and>
   \<not> sorted_wrt (<)
       (map sint (fst (EncodeMessages plainCodec (replicate (2 ^ 63) ([], [], ())) Net)))"
proof -
  define n :: nat where "n = 2 ^ 63"
  have "\<not> sorted_wrt (<)
       (map sint (fst (EncodeMessages plainCodec (replicate (2 ^ 63) ([], [], ())) Net)))"
  proof
    assume "sorted_wrt (<)
       (map sint (fst (EncodeMessages plainCodec (replicate (2 ^ 63) ([], [], ())) Net)))"
    then have a: "sorted_wrt (<) (map (\<lambda>i. sint (word_of_nat i :: 64 word)) [1..<Suc n])"
      by (simp add: EncodeMessages_seqs Net_def n_def o_def del: upt_Suc)
    have n2: "2 \<le> n" by (simp add: n_def)
    have "map (\<lambda>i. sint (word_of_nat i :: 64 word)) [1..<Suc n] ! (n - 2)
          < map (\<lambda>i. sint (word_of_nat i :: 64 word)) [1..<Suc n] ! (n - 1)"
      using n2 by (intro sorted_wrt_nth_less[OF a]) auto
    then have "sint (word_of_nat (n - 1) :: 64 word) < sint (word_of_nat n :: 64 word)"
      using n2 by (simp add: nth_append del: upt_Suc)
    then show False
      by (simp add: n_def)
  qed
  then show ?thesis
    by (simp add: EncodeMessage_def plainCodec_def Net_def Let_def)
qed

text \<open>
  Claim C2, amended. As long as the counter does not pass \<open>2^63 - 1\<close> (from the initial
  manager: for every session of fewer than \<open>2^63\<close> requests), the numbers that
  successive calls of \<open>EncodeMessage\<close> assign are strictly increasing, hence unique, and
  all greater than the counter before the first call; a successful call returns the
  number it assigned.
\<close>

theorem EncodeMessages_strictly_increasing:
  assumes "sint (clientSeq nm) + int (length reqs) < 2 ^ 63"
  shows "sorted_wrt (<) (map sint (fst (EncodeMessages codec reqs nm))) \<and>
         distinct (fst (EncodeMessages codec reqs nm)) \<and>
         (\<forall>s \<in> set (fst (EncodeMessages codec reqs nm)). sint (clientSeq nm) < sint s) \<and>
         (\<forall>s m b data seq. fst (EncodeMessage codec s m b nm) = Inr (data, seq) \<longrightarrow>
            seq = clientSeq (snd (EncodeMessage codec s m b nm)))"
proof -
  have inc: "sorted_wrt (<) (map sint (fst (EncodeMessages codec reqs nm)))"
    using EncodeMessages_increasing[OF assms, where codec = codec] by simp
  then have "distinct (map sint (fst (EncodeMessages codec reqs nm)))"
    by (simp add: strict_sorted_iff)
  then have "distinct (fst (EncodeMessages codec reqs nm))"
    by (simp add: distinct_map)
  moreover have "\<forall>s \<in> set (fst (EncodeMessages codec reqs nm)). sint (clientSeq nm) < sint s"
    using EncodeMessages_increasing[OF assms, where codec = codec] by simp
  moreover have "\<forall>s m b data seq. fst (EncodeMessage codec s m b nm) = Inr (data, seq) \<longrightarrow>
            seq = clientSeq (snd (EncodeMessage codec s m b nm))"
    by (auto dest: EncodeMessage_returns_counter)
  ultimately show ?thesis using inc by simp
qed

theorem EncodeMessages_strictly_increasing_witness:
  "sint (clientSeq Net) + int (length [(''s'', ''a'', ()), (''s'', ''b'', ()), (''s'', ''c'', ())]) < 2 ^ 63 \<and>
   fst (EncodeMessages plainCodec [(''s'', ''a'', ()), (''s'', ''b'', ()), (''s'', ''c'', ())] Net) = [1, 2, 3] \<and>
   sorted_wrt (<) (map sint
     (fst (EncodeMessages plainCodec [(''s'', ''a'', ()), (''s'', ''b'', ()), (''s'', ''c'', ())] Net)))"
  using EncodeMessages_strictly_increasing
    [of Net "[(''s'', ''a'', ()), (''s'', ''b'', ()), (''s'', ''c'', ())]" plainCodec]
  by (simp add: Net_def EncodeMessage_def plainCodec_def Let_def)

section \<open>Phase selection\<close>

lemma getCurrentPhase_loop_None:
  "getCurrentPhase_loop ps now n = None \<longleftrightarrow> (\<forall>i<n. \<not> phaseBegun now (ps ! i))"
  by (induction n) (auto simp: less_Suc_eq)

lemma getCurrentPhase_loop_Some:
  "getCurrentPhase_loop ps now n = Some p \<Longrightarrow>
   \<exists>i<n. p = ps ! i \<and> phaseBegun now (ps ! i) \<and> (\<forall>j<n. i < j \<longrightarrow> \<not> phaseBegun now (ps ! j))"
proof (induction n)
  case 0
  then show ?case by simp
next
  case (Suc n)
  show ?case
  proof (cases "phaseBegun now (ps ! n)")
    case True
    with Suc.prems have "p = ps ! n" by simp
    with True show ?thesis by (intro exI[of _ n]) auto
  next
    case False
    with Suc.prems have "getCurrentPhase_loop ps now n = Some p" by simp
    from Suc.IH[OF this] obtain i where "i < n" "p = ps ! i" "phaseBegun now (ps ! i)"
      "\<forall>j<n. i < j \<longrightarrow> \<not> phaseBegun now (ps ! j)" by blast
    with False show ?thesis by (intro exI[of _ i]) (auto simp: less_Suc_eq)
  qed
qed

lemma Friend_getCurrentPhase_eq: "Friend_getCurrentPhase = getCurrentPhase"
  by (intro ext) (simp add: Friend_getCurrentPhase_def getCurrentPhase_def)

text \<open>
  Claim C3, as stated, fails: a phase qualifies only if its begin time is positive. With
  a first phase that began at 100 and a second phase whose \<open>beginTime\<close> is 0, at time 150
  the code selects the first phase, while the latest phase whose \<open>beginTime\<close> is at most
  \<open>now\<close> is the second.
\<close>

theorem getCurrentPhase_zero_beginTime_counterexample:
  "getCurrentPhase [examplePhase 1 100 0, examplePhase 2 0 0] 150 = Some (examplePhase 1 100 0) \<and>
   Friend_getCurrentPhase [examplePhase 1 100 0, examplePhase 2 0 0] 150 =
     Some (examplePhase 1 100 0) \<and>
   BeginTime (examplePhase 2 0 0) \<le> 150 \<and>
   claimed_currentPhase [examplePhase 1 100 0, examplePhase 2 0 0] 150 =
     Some (examplePhase 2 0 0) \<and>
   examplePhase 1 100 0 \<noteq> examplePhase 2 0 0"
  by (simp add: getCurrentPhase_def Friend_getCurrentPhase_def phaseBegun_def ToTimeSec_def
      claimed_currentPhase_def examplePhase_def numeral_2_eq_2)

text \<open>
  Claim C3, amended. For every non-empty phase list and every time \<open>now\<close>, both
  \<open>getCurrentPhase\<close> methods return a phase of the list, never nil: the phase at the
  greatest index whose begin time, normalised by \<open>ToTimeSec\<close>, is positive and at most
  \<open>now\<close>; if no phase qualifies, the first phase. With begin times 100, 200, 300 the
  selection at 250 is the second phase and at 50 the first.
\<close>

theorem getCurrentPhase_selects:
  assumes "phases \<noteq> []"
  shows "(\<exists>p. getCurrentPhase phases now = Some p \<and> Friend_getCurrentPhase phases now = Some p \<and>
          p \<in> set phases \<and>
          ((\<exists>i<length phases. p = phases ! i \<and> phaseBegun now (phases ! i) \<and>
               (\<forall>j<length phases. i < j \<longrightarrow> \<not> phaseBegun now (phases ! j)))
           \<or> ((\<forall>i<length phases. \<not> phaseBegun now (phases ! i)) \<and> p = phases ! 0))) \<and>
         (\<forall>p1 p2 p3. BeginTime p1 = 100 \<and> BeginTime p2 = 200 \<and> BeginTime p3 = 300 \<longrightarrow>
            getCurrentPhase [p1, p2, p3] 250 = Some p2 \<and>
            getCurrentPhase [p1, p2, p3] 50 = Some p1)"
proof -
  have sel: "\<exists>p. getCurrentPhase phases now = Some p \<and> Friend_getCurrentPhase phases now = Some p \<and>
          p \<in> set phases \<and>
          ((\<exists>i<length phases. p = phases ! i \<and> phaseBegun now (phases ! i) \<and>
               (\<forall>j<length phases. i < j \<longrightarrow> \<not> phaseBegun now (phases ! j)))
           \<or> ((\<forall>i<length phases. \<not> phaseBegun now (phases ! i)) \<and> p = phases ! 0))"
  proof (cases "getCurrentPhase_loop phases now (length phases)")
    case None
    then have "getCurrentPhase phases now = Some (phases ! 0)"
      using assms by (simp add: getCurrentPhase_def)
    moreover have "\<forall>i<length phases. \<not> phaseBegun now (phases ! i)"
      using None by (simp add: getCurrentPhase_loop_None)
    ultimately show ?thesis using assms
      by (auto simp: Friend_getCurrentPhase_eq)
  next
    case (Some p)
    then have "getCurrentPhase phases now = Some p"
      using assms by (simp add: getCurrentPhase_def)
    with getCurrentPhase_loop_Some[OF Some] show ?thesis
      by (auto simp: Friend_getCurrentPhase_eq)
  qed
  have ex: "\<forall>p1 p2 p3. BeginTime p1 = 100 \<and> BeginTime p2 = 200 \<and> BeginTime p3 = 300 \<longrightarrow>
            getCurrentPhase [p1, p2, p3] 250 = Some p2 \<and>
            getCurrentPhase [p1, p2, p3] 50 = Some p1"
    by (simp add: getCurrentPhase_def phaseBegun_def ToTimeSec_def numeral_3_eq_3)
  from sel ex show ?thesis by blast
qed

theorem getCurrentPhase_selects_witness:
  "[examplePhase 1 100 0, examplePhase 2 200 0, examplePhase 3 300 0] \<noteq> [] \<and>
   getCurrentPhase [examplePhase 1 100 0, examplePhase 2 200 0, examplePhase 3 300 0] 250 =
     Some (examplePhase 2 200 0) \<and>
   getCurrentPhase [examplePhase 1 100 0, examplePhase 2 200 0, examplePhase 3 300 0] 50 =
     Some (examplePhase 1 100 0)"
  using getCurrentPhase_selects
    [of "[examplePhase 1 100 0, examplePhase 2 200 0, examplePhase 3 300 0]" 250]
  by (simp add: examplePhase_def)

section \<open>The categories of AnalyzeLands\<close>

lemma containsInt64_iff: "containsInt64 xs v \<longleftrightarrow> v \<in> set xs"
  by (induction xs) auto

lemma set_dualDetect:
  "set (dualDetect c t now i need) =
     set need \<union> (if c \<or> (0 < ToTimeSec t \<and> ToTimeSec t \<le> now) then {i} else {})"
  by (auto simp: dualDetect_def Let_def containsInt64_iff)

lemma unlockedIds_Nil: "unlockedIds [] = []"
  by (simp add: unlockedIds_def List.map_filter_simps)

lemma unlockedIds_Cons:
  "unlockedIds (l # ls) =
     (case l of None \<Rightarrow> unlockedIds ls
      | Some land \<Rightarrow> if Unlocked land then ld_Id land # unlockedIds ls else unlockedIds ls)"
  by (simp add: unlockedIds_def List.map_filter_simps split: option.splits)

lemma step_categories:
  "mset (Empty (AnalyzeLands_step cfg now r l) @ Dead (AnalyzeLands_step cfg now r l) @
         Harvestable (AnalyzeLands_step cfg now r l) @ Growing (AnalyzeLands_step cfg now r l)) =
   mset (Empty r @ Dead r @ Harvestable r @ Growing r) + mset (unlockedIds [l])"
  by (simp add: AnalyzeLands_step_def unlockedIds_Cons unlockedIds_Nil Let_def
      split: option.splits)

lemma foldl_categories:
  "mset (Empty (foldl (AnalyzeLands_step cfg now) r lands) @
         Dead (foldl (AnalyzeLands_step cfg now) r lands) @
         Harvestable (foldl (AnalyzeLands_step cfg now) r lands) @
         Growing (foldl (AnalyzeLands_step cfg now) r lands)) =
   mset (Empty r @ Dead r @ Harvestable r @ Growing r) + mset (unlockedIds lands)"
proof (induction lands arbitrary: r)
  case Nil
  then show ?case by (simp add: unlockedIds_Nil)
next
  case (Cons l lands)
  have "mset (unlockedIds (l # lands)) = mset (unlockedIds [l]) + mset (unlockedIds lands)"
    by (simp add: unlockedIds_Cons unlockedIds_Nil split: option.splits)
  then show ?case
    using Cons.IH[of "AnalyzeLands_step cfg now r l"] step_categories[of cfg now r l]
    by (simp add: ac_simps)
qed

lemma step_needs_subset:
  assumes "set (NeedWater r) \<union> set (NeedWeed r) \<union> set (NeedBug r) \<subseteq> set (Growing r)"
  shows "set (NeedWater (AnalyzeLands_step cfg now r l)) \<union>
         set (NeedWeed (AnalyzeLands_step cfg now r l)) \<union>
         set (NeedBug (AnalyzeLands_step cfg now r l))
         \<subseteq> set (Growing (AnalyzeLands_step cfg now r l))"
  using assms
  by (auto simp: AnalyzeLands_step_def Let_def set_dualDetect split: option.splits if_splits)

lemma foldl_needs_subset:
  assumes "set (NeedWater r) \<union> set (NeedWeed r) \<union> set (NeedBug r) \<subseteq> set (Growing r)"
  shows "set (NeedWater (foldl (AnalyzeLands_step cfg now) r lands)) \<union>
         set (NeedWeed (foldl (AnalyzeLands_step cfg now) r lands)) \<union>
         set (NeedBug (foldl (AnalyzeLands_step cfg now) r lands))
         \<subseteq> set (Growing (foldl (AnalyzeLands_step cfg now) r lands))"
  using assms
proof (induction lands arbitrary: r)
  case Nil
  then show ?case by simp
next
  case (Cons l lands)
  show ?case
    using Cons.IH[OF step_needs_subset[OF Cons.prems]] by simp
qed

lemma step_info:
  "map hp_LandID (HarvestableInfo r) = Harvestable r \<Longrightarrow>
   map hp_LandID (HarvestableInfo (AnalyzeLands_step cfg now r l)) =
   Harvestable (AnalyzeLands_step cfg now r l)"
  by (auto simp: AnalyzeLands_step_def Let_def split: option.splits if_splits)

lemma foldl_info:
  "map hp_LandID (HarvestableInfo r) = Harvestable r \<Longrightarrow>
   map hp_LandID (HarvestableInfo (foldl (AnalyzeLands_step cfg now) r lands)) =
   Harvestable (foldl (AnalyzeLands_step cfg now) r lands)"
  by (induction lands arbitrary: r) (simp_all add: step_info)

text \<open>
  Claim C4. \<open>AnalyzeLands\<close> is a total function of the snapshot and the time. The lists
  Empty, Dead, Harvestable and Growing together hold the id of every unlocked plot of the
  snapshot exactly as often as the snapshot does, and nothing else: each unlocked plot is
  put into exactly one of the four, and with distinct plot ids the four lists are
  distinct and pairwise disjoint. Locked plots and nil entries are in no list. The three
  need lists hold growing plots only; which of them hold a growing plot is claim C5.
\<close>

theorem AnalyzeLands_partition:
  "(let r = AnalyzeLands cfg now lands in
      mset (Empty r) + mset (Dead r) + mset (Harvestable r) + mset (Growing r) =
        mset (unlockedIds lands) \<and>
      (distinct (unlockedIds lands) \<longrightarrow>
         distinct (Empty r @ Dead r @ Harvestable r @ Growing r)) \<and>
      set (Empty r) \<union> set (Dead r) \<union> set (Harvestable r) \<union> set (Growing r) =
        set (unlockedIds lands) \<and>
      set (NeedWater r) \<subseteq> set (Growing r) \<and>
      set (NeedWeed r) \<subseteq> set (Growing r) \<and>
      set (NeedBug r) \<subseteq> set (Growing r) \<and>
      map hp_LandID (HarvestableInfo r) = Harvestable r)"
proof -
  define r where "r = AnalyzeLands cfg now lands"
  have 1: "mset (Empty r @ Dead r @ Harvestable r @ Growing r) = mset (unlockedIds lands)"
    unfolding r_def AnalyzeLands_def
    by (simp add: foldl_categories del: mset_append) (simp add: emptyStatus_def)
  have 2: "set (NeedWater r) \<union> set (NeedWeed r) \<union> set (NeedBug r) \<subseteq> set (Growing r)"
    unfolding r_def AnalyzeLands_def by (rule foldl_needs_subset) (simp add: emptyStatus_def)
  have 3: "map hp_LandID (HarvestableInfo r) = Harvestable r"
    unfolding r_def AnalyzeLands_def by (rule foldl_info) (simp add: emptyStatus_def)
  have 4: "distinct (unlockedIds lands) \<longrightarrow> distinct (Empty r @ Dead r @ Harvestable r @ Growing r)"
    using mset_eq_imp_distinct_iff[OF 1] by simp
  have 5: "set (Empty r @ Dead r @ Harvestable r @ Growing r) = set (unlockedIds lands)"
    using mset_eq_setD[OF 1] .
  from 1 2 3 4 5 show ?thesis
    unfolding Let_def r_def[symmetric] by (simp add: ac_simps Un_assoc)
qed

theorem AnalyzeLands_partition_witness:
  "distinct (unlockedIds exampleLands) \<and>
   unlockedIds exampleLands = [2, 3, 4, 5, 6, 7] \<and>
   Empty (AnalyzeLands exampleConfig 1000 exampleLands) = [2] \<and>
   Dead (AnalyzeLands exampleConfig 1000 exampleLands) = [3] \<and>
   Harvestable (AnalyzeLands exampleConfig 1000 exampleLands) = [4] \<and>
   Growing (AnalyzeLands exampleConfig 1000 exampleLands) = [5, 6, 7] \<and>
   distinct (Empty (AnalyzeLands exampleConfig 1000 exampleLands) @
             Dead (AnalyzeLands exampleConfig 1000 exampleLands) @
             Harvestable (AnalyzeLands exampleConfig 1000 exampleLands) @
             Growing (AnalyzeLands exampleConfig 1000 exampleLands))"
  using AnalyzeLands_partition[of exampleConfig 1000 exampleLands]
  by (simp add: AnalyzeLands_def AnalyzeLands_step_def emptyStatus_def exampleLands_def
      examplePlant_def examplePhase_def getCurrentPhase_def phaseBegun_def ToTimeSec_def PlantPhaseDead_def
      PlantPhaseMature_def unlockedIds_def List.map_filter_simps Let_def)

section \<open>Dual detection of needs\<close>















section \<open>Daily reset and experience exhaustion\<close>

text \<open>
  Claim C6. When the local date differs from the recorded reset date, the reset check
  empties the operation limits, the experience trackers and the exhaustion flags and
  records the new date; after it \<open>isLimitReached\<close> is false for every operation kind,
  since no kind has a limit record, and a second check on the same date changes nothing.
\<close>

theorem checkDailyReset_clears:
  assumes "today \<noteq> lastResetDate fm"
  shows "operationLimits (checkDailyReset today fm) = Map.empty \<and>
         expTracker (checkDailyReset today fm) = Map.empty \<and>
         expExhausted (checkDailyReset today fm) = Map.empty \<and>
         lastResetDate (checkDailyReset today fm) = today \<and>
         (\<forall>opId. \<not> isLimitReached opId (checkDailyReset today fm)) \<and>
         checkDailyReset today (checkDailyReset today fm) = checkDailyReset today fm"
  using assms by (simp add: checkDailyReset_def isLimitReached_def)

theorem checkDailyReset_clears_witness:
  "''2024-05-02'' \<noteq> lastResetDate exampleManager \<and>
   isLimitReached OpWaterLand exampleManager \<and>
   \<not> isLimitReached OpWaterLand (checkDailyReset ''2024-05-02'' exampleManager) \<and>
   operationLimits (checkDailyReset ''2024-05-02'' exampleManager) = Map.empty \<and>
   lastResetDate (checkDailyReset ''2024-05-02'' exampleManager) = ''2024-05-02''"
  using checkDailyReset_clears[of "''2024-05-02''" exampleManager]
  by (simp add: exampleManager_def isLimitReached_def OpWaterLand_def)

lemma step_exhausted_mono:
  "readFlag (expExhausted fm) op \<Longrightarrow> readFlag (expExhausted (updateOperationLimits_step fm l)) op"
  by (auto simp: updateOperationLimits_step_def Let_def readFlag_def split: option.splits)

lemma step_tracker: "expTracker (updateOperationLimits_step fm l) = expTracker fm"
  by (auto simp: updateOperationLimits_step_def Let_def split: option.splits)

lemma update_exhausted_mono:
  "readFlag (expExhausted fm) op \<Longrightarrow> readFlag (expExhausted (updateOperationLimits ls fm)) op"
  unfolding updateOperationLimits_def
  by (induction ls arbitrary: fm) (simp_all add: step_exhausted_mono)

lemma update_tracker: "expTracker (updateOperationLimits ls fm) = expTracker fm"
  unfolding updateOperationLimits_def
  by (induction ls arbitrary: fm) (simp_all add: step_tracker)

lemma step_marks:
  assumes "expTracker fm (word_of_int (ol_Id limit)) = Some b" "DayExpTimes limit \<le> b"
  shows "readFlag (expExhausted (updateOperationLimits_step fm (Some limit))) (word_of_int (ol_Id limit))"
  using assms
  by (auto simp: updateOperationLimits_step_def Let_def readFlag_def HelpOnlyWithExp_def split: option.splits)

lemma update_marks:
  assumes "expTracker fm (word_of_int (ol_Id limit)) = Some b" "DayExpTimes limit \<le> b"
    "Some limit \<in> set limits"
  shows "readFlag (expExhausted (updateOperationLimits limits fm)) (word_of_int (ol_Id limit))"
proof -
  from assms(3) obtain xs ys where sp: "limits = xs @ Some limit # ys"
    by (auto simp: in_set_conv_decomp)
  let ?fm1 = "updateOperationLimits xs fm"
  have "expTracker ?fm1 (word_of_int (ol_Id limit)) = Some b"
    using assms(1) by (simp add: update_tracker)
  from step_marks[OF this assms(2)]
  have "readFlag (expExhausted (updateOperationLimits_step ?fm1 (Some limit))) (word_of_int (ol_Id limit))" .
  from update_exhausted_mono[OF this, of ys]
  show ?thesis by (simp add: sp updateOperationLimits_def)
qed

lemma trackExpBefore_exhausted: "expExhausted (trackExpBefore k fm) = expExhausted fm"
  by (auto simp: trackExpBefore_def split: option.splits)

lemma canGetExp_iff: "canGetExp op fm \<longleftrightarrow> \<not> readFlag (expExhausted fm) op"
  by (simp add: canGetExp_def HelpOnlyWithExp_def)

lemma steal_loop_exhausted:
  "readFlag (expExhausted fm) op \<Longrightarrow>
   readFlag (expExhausted (fst (steal_loop send gid infos (fm, w)))) op"
proof (induction infos arbitrary: fm w)
  case Nil
  then show ?case by simp
next
  case (Cons info infos)
  show ?case
  proof (cases "isLimitReached OpSteal fm")
    case True
    then show ?thesis using Cons.prems by simp
  next
    case False
    obtain res fm' w' where st: "StealFromFriend send [sp_LandID info] gid (fm, w) = (res, fm', w')"
      by (cases "StealFromFriend send [sp_LandID info] gid (fm, w)") auto
    have "readFlag (expExhausted fm') op"
      using st Cons.prems
      by (auto simp: StealFromFriend_def update_exhausted_mono split: prod.splits sum.splits)
    from Cons.IH[OF this] show ?thesis using False st by simp
  qed
qed

lemma steal_loop_trace:
  "\<exists>xs. snd (snd (steal_loop (traced send) gid infos (fm, (w, tr)))) = tr @ xs \<and> (\<forall>r\<in>set xs. isHarvest r)"
proof (induction infos arbitrary: fm w tr)
  case Nil
  then show ?case by simp
next
  case (Cons info infos)
  show ?case
  proof (cases "isLimitReached OpSteal fm")
    case True
    then show ?thesis by simp
  next
    case False
    obtain res fm' w' tr' where st:
      "StealFromFriend (traced send) [sp_LandID info] gid (fm, (w, tr)) = (res, fm', (w', tr'))"
      by (cases "StealFromFriend (traced send) [sp_LandID info] gid (fm, (w, tr))") auto
    have tr': "tr' = tr @ [ReqHarvest [sp_LandID info] gid False]"
      using st by (auto simp: StealFromFriend_def traced_def split: prod.splits sum.splits)
    from Cons.IH[of fm' w' tr'] obtain xs where
      "snd (snd (steal_loop (traced send) gid infos (fm', (w', tr')))) = tr' @ xs" "\<forall>r\<in>set xs. isHarvest r"
      by blast
    then show ?thesis using False st tr'
      by (intro exI[of _ "ReqHarvest [sp_LandID info] gid False # xs"]) (simp add: isHarvest_def)
  qed
qed

lemma help_loop_trace:
  assumes h: "\<And>ids g w tr. \<exists>r. snd (snd (helpCall (traced send) ids g (w, tr))) = tr @ [r] \<and> P r"
  shows "\<exists>xs. snd (help_loop helpCall (traced send) op gid need fm (w, tr)) = tr @ xs \<and> (\<forall>r\<in>set xs. P r)"
proof (induction need arbitrary: w tr)
  case Nil
  then show ?case by simp
next
  case (Cons l need)
  show ?case
  proof (cases "isLimitReached op fm")
    case True
    then show ?thesis by simp
  next
    case False
    obtain res w' tr' where st: "helpCall (traced send) [l] gid (w, tr) = (res, (w', tr'))"
      by (cases "helpCall (traced send) [l] gid (w, tr)") auto
    from h[of "[l]" gid w tr] st obtain r where r: "tr' = tr @ [r]" "P r" by auto
    from Cons.IH[of w' tr'] obtain xs where
      "snd (help_loop helpCall (traced send) op gid need fm (w', tr')) = tr' @ xs" "\<forall>r\<in>set xs. P r"
      by blast
    then show ?thesis using False st r
      by (intro exI[of _ "r # xs"]) simp
  qed
qed

lemma help_block_trace:
  assumes h: "\<And>ids g w tr. \<exists>r. snd (snd (helpCall (traced send) ids g (w, tr))) = tr @ [r] \<and> P r"
  shows "\<exists>xs. snd (snd (help_block helpCall (traced send) op gid need (fm, (w, tr)))) = tr @ xs \<and>
          (\<forall>r\<in>set xs. P r) \<and> (\<not> canGetExp op fm \<longrightarrow> xs = [])"
proof (cases "0 < length need \<and> canGetExp op fm \<and> \<not> isLimitReached op fm")
  case True
  from help_loop_trace[of helpCall send P op gid need "trackExpBefore op fm" w tr, OF h]
  show ?thesis using True by (auto simp: help_block_def Let_def)
next
  case False
  then show ?thesis by (auto simp: help_block_def)
qed

lemma help_block_exhausted:
  "expExhausted (fst (help_block helpCall send op gid need (fm, w))) = expExhausted fm"
  by (simp add: help_block_def Let_def trackExpBefore_exhausted)

lemma help_calls:
  "\<exists>r. snd (snd (HelpWaterLand (traced send) ids g (w, tr))) = tr @ [r] \<and> isWater r"
  "\<exists>r. snd (snd (HelpWeedOut (traced send) ids g (w, tr))) = tr @ [r] \<and> isWeed r"
  "\<exists>r. snd (snd (HelpInsecticide (traced send) ids g (w, tr))) = tr @ [r] \<and> isInsect r"
  by (auto simp: HelpWaterLand_def HelpWeedOut_def HelpInsecticide_def traced_def isWater_def
      isWeed_def isInsect_def split: prod.splits)

lemma perform_trace:
  "\<exists>hs was gs bs. snd (snd (performFriendOperations (traced send) gid status (fm, (w, tr)))) = tr @ hs @ was @ gs @ bs \<and>
     (\<forall>r\<in>set hs. isHarvest r) \<and> (\<forall>r\<in>set was. isWater r) \<and> (\<forall>r\<in>set gs. isWeed r) \<and> (\<forall>r\<in>set bs. isInsect r) \<and>
     (\<not> canGetExp OpWaterLand fm \<longrightarrow> was = []) \<and>
     (\<not> canGetExp OpWeedOut fm \<longrightarrow> gs = []) \<and>
     (\<not> canGetExp OpInsecticide fm \<longrightarrow> bs = [])"
proof -
  define s1 where "s1 = (if 0 < length (CanSteal status) \<and> \<not> isLimitReached OpSteal fm
                then steal_loop (traced send) gid (StealInfo status) (fm, (w, tr)) else (fm, (w, tr)))"
  define s2 where "s2 = help_block HelpWaterLand (traced send) OpWaterLand gid (f_NeedWater status) s1"
  define s3 where "s3 = help_block HelpWeedOut (traced send) OpWeedOut gid (f_NeedWeed status) s2"
  define s4 where "s4 = help_block HelpInsecticide (traced send) OpInsecticide gid (f_NeedBug status) s3"
  have res: "performFriendOperations (traced send) gid status (fm, (w, tr)) = s4"
    by (simp add: performFriendOperations_def EnablePutBadThings_def Let_def s1_def s2_def s3_def s4_def)
  have mono: "\<not> canGetExp op fm \<Longrightarrow> \<not> canGetExp op (fst s1)" for op
    using steal_loop_exhausted[of fm op "traced send" gid "StealInfo status" "(w, tr)"]
    by (auto simp: s1_def canGetExp_iff)
  have "\<exists>hs. snd (snd s1) = tr @ hs \<and> (\<forall>r\<in>set hs. isHarvest r)"
  proof (cases "0 < length (CanSteal status) \<and> \<not> isLimitReached OpSteal fm")
    case True
    then show ?thesis
      using steal_loop_trace[of send gid "StealInfo status" fm w tr] by (simp add: s1_def)
  next
    case False
    then show ?thesis by (auto simp: s1_def)
  qed
  then obtain hs where hs: "snd (snd s1) = tr @ hs" "\<forall>r\<in>set hs. isHarvest r"
    by blast
  obtain fm1 w1 tr1 where s1: "s1 = (fm1, (w1, tr1))" by (cases s1) auto
  obtain was where was: "snd (snd s2) = tr1 @ was" "\<forall>r\<in>set was. isWater r" "\<not> canGetExp OpWaterLand fm1 \<longrightarrow> was = []"
    using help_block_trace[of HelpWaterLand send isWater OpWaterLand gid "f_NeedWater status" fm1 w1 tr1, OF help_calls(1)]
    by (auto simp: s2_def s1)
  have e2: "expExhausted (fst s2) = expExhausted fm1"
    by (simp add: s2_def s1 help_block_exhausted)
  obtain fm2 w2 tr2 where s2: "s2 = (fm2, (w2, tr2))" by (cases s2) auto
  obtain gs where gs: "snd (snd s3) = tr2 @ gs" "\<forall>r\<in>set gs. isWeed r" "\<not> canGetExp OpWeedOut fm2 \<longrightarrow> gs = []"
    using help_block_trace[of HelpWeedOut send isWeed OpWeedOut gid "f_NeedWeed status" fm2 w2 tr2, OF help_calls(2)]
    by (auto simp: s3_def s2)
  have e3: "expExhausted (fst s3) = expExhausted fm2"
    by (simp add: s3_def s2 help_block_exhausted)
  obtain fm3 w3 tr3 where s3: "s3 = (fm3, (w3, tr3))" by (cases s3) auto
  obtain bs where bs: "snd (snd s4) = tr3 @ bs" "\<forall>r\<in>set bs. isInsect r" "\<not> canGetExp OpInsecticide fm3 \<longrightarrow> bs = []"
    using help_block_trace[of HelpInsecticide send isInsect OpInsecticide gid "f_NeedBug status" fm3 w3 tr3, OF help_calls(3)]
    by (auto simp: s4_def s3)
  have c1: "\<not> canGetExp op fm \<Longrightarrow> \<not> canGetExp op fm1" for op using mono[of op] s1 by simp
  have c2: "\<not> canGetExp op fm \<Longrightarrow> \<not> canGetExp op fm2" for op
    using c1[of op] e2 s2 by (simp add: canGetExp_iff)
  have c3: "\<not> canGetExp op fm \<Longrightarrow> \<not> canGetExp op fm3" for op
    using c2[of op] e3 s3 by (simp add: canGetExp_iff)
  have "snd (snd s4) = tr @ hs @ was @ gs @ bs"
    using hs was gs bs s1 s2 s3 by simp
  then show ?thesis
    unfolding res using hs was gs bs c1 c2 c3 by blast
qed

lemma no_req:
  assumes "\<forall>r\<in>set hs. isHarvest r" "\<forall>r\<in>set was. isWater r" "\<forall>r\<in>set gs. isWeed r" "\<forall>r\<in>set bs. isInsect r"
  shows "(was = [] \<longrightarrow> ReqWaterLand ids g \<notin> set (hs @ was @ gs @ bs)) \<and>
         (gs = [] \<longrightarrow> ReqWeedOut ids g \<notin> set (hs @ was @ gs @ bs)) \<and>
         (bs = [] \<longrightarrow> ReqInsecticide ids g \<notin> set (hs @ was @ gs @ bs))"
  using assms by (auto simp: isHarvest_def isWater_def isWeed_def isInsect_def)

lemma perform_skips:
  assumes "\<not> canGetExp op fm"
  shows "(op = OpWaterLand \<longrightarrow>
            ReqWaterLand ids g \<notin> set (snd (snd (performFriendOperations (traced send) gid status (fm, (w, [])))))) \<and>
         (op = OpWeedOut \<longrightarrow>
            ReqWeedOut ids g \<notin> set (snd (snd (performFriendOperations (traced send) gid status (fm, (w, [])))))) \<and>
         (op = OpInsecticide \<longrightarrow>
            ReqInsecticide ids g \<notin> set (snd (snd (performFriendOperations (traced send) gid status (fm, (w, []))))))"
proof -
  from perform_trace[of send gid status fm w "[]"] obtain hs was gs bs where
    tr: "snd (snd (performFriendOperations (traced send) gid status (fm, (w, [])))) = hs @ was @ gs @ bs"
    and k: "\<forall>r\<in>set hs. isHarvest r" "\<forall>r\<in>set was. isWater r" "\<forall>r\<in>set gs. isWeed r" "\<forall>r\<in>set bs. isInsect r"
    and e: "\<not> canGetExp OpWaterLand fm \<longrightarrow> was = []" "\<not> canGetExp OpWeedOut fm \<longrightarrow> gs = []"
       "\<not> canGetExp OpInsecticide fm \<longrightarrow> bs = []"
    by auto
  have "was = []" if "op = OpWaterLand" using that e assms by simp
  moreover have "gs = []" if "op = OpWeedOut" using that e assms by simp
  moreover have "bs = []" if "op = OpInsecticide" using that e assms by simp
  ultimately show ?thesis
    unfolding tr using no_req[OF k, of ids g] by simp
qed

text \<open>
  The part of the detection that the code does carry out. Let a tracked value \<open>before\<close>
  be recorded for an operation kind, and let a list of limits that reaches
  \<open>updateOperationLimits\<close> hold a record of that kind whose day-experience counter is
  not above \<open>before\<close>. Then the kind is marked exhausted: \<open>canGetExp\<close> is false for
  it, and stays false through later limit updates, later \<open>trackExpBefore\<close> calls and
  reset checks on the same date. While it is false, \<open>performFriendOperations\<close> sends no
  request of that assistance kind (water, weed or insect), whatever the server answers.
  The reset check on a new date makes \<open>canGetExp\<close> true again. The only calls that pass
  the limits of their reply to \<open>updateOperationLimits\<close> are \<open>StealFromFriend\<close>,
  \<open>PutWeeds\<close> and \<open>PutInsects\<close>; the last statement is the marking through a
  successful \<open>StealFromFriend\<close>.
\<close>

lemma exhaustion_through_limits:
  assumes "expTracker fm op = Some before"
      and "Some limit \<in> set limits" "word_of_int (ol_Id limit) = op"
      and "DayExpTimes limit \<le> before"
  shows "(let fm' = updateOperationLimits limits fm in
          \<not> canGetExp op fm' \<and>
          (\<forall>ls. \<not> canGetExp op (updateOperationLimits ls fm')) \<and>
          (\<forall>k. \<not> canGetExp op (trackExpBefore k fm')) \<and>
          \<not> canGetExp op (checkDailyReset (lastResetDate fm') fm') \<and>
          (\<forall>send gid status w ids g.
             (op = OpWaterLand \<longrightarrow> ReqWaterLand ids g \<notin>
                set (snd (snd (performFriendOperations (traced send) gid status (fm', (w, [])))))) \<and>
             (op = OpWeedOut \<longrightarrow> ReqWeedOut ids g \<notin>
                set (snd (snd (performFriendOperations (traced send) gid status (fm', (w, [])))))) \<and>
             (op = OpInsecticide \<longrightarrow> ReqInsecticide ids g \<notin>
                set (snd (snd (performFriendOperations (traced send) gid status (fm', (w, []))))))) \<and>
          (\<forall>today. today \<noteq> lastResetDate fm' \<longrightarrow> canGetExp op (checkDailyReset today fm'))) \<and>
         (\<forall>send ids gid w resp w'.
             send (ReqHarvest ids gid False) w = (Inr resp, w') \<and> rp_OperationLimits resp = limits \<longrightarrow>
             \<not> canGetExp op (fst (snd (StealFromFriend send ids gid (fm, w)))))"
proof -
  define fm' where "fm' = updateOperationLimits limits fm"
  have m: "\<not> canGetExp op fm'"
    using update_marks[OF _ assms(4) assms(2), of fm] assms(1,3)
    by (simp add: canGetExp_iff fm'_def)
  have p1: "\<forall>ls. \<not> canGetExp op (updateOperationLimits ls fm')"
    using m update_exhausted_mono[of fm' op] by (simp add: canGetExp_iff)
  have p2: "\<forall>k. \<not> canGetExp op (trackExpBefore k fm')"
    using m by (simp add: canGetExp_iff trackExpBefore_exhausted)
  have p3: "\<not> canGetExp op (checkDailyReset (lastResetDate fm') fm')"
    using m by (simp add: checkDailyReset_def)
  have r: "\<forall>today. today \<noteq> lastResetDate fm' \<longrightarrow> canGetExp op (checkDailyReset today fm')"
    by (simp add: checkDailyReset_def canGetExp_iff readFlag_def)
  have s: "\<forall>send ids gid w resp w'.
             send (ReqHarvest ids gid False) w = (Inr resp, w') \<and> rp_OperationLimits resp = limits \<longrightarrow>
             \<not> canGetExp op (fst (snd (StealFromFriend send ids gid (fm, w))))"
    using m by (simp add: StealFromFriend_def fm'_def)
  have sk: "\<forall>send gid status w ids g.
             (op = OpWaterLand \<longrightarrow> ReqWaterLand ids g \<notin>
                set (snd (snd (performFriendOperations (traced send) gid status (fm', (w, [])))))) \<and>
             (op = OpWeedOut \<longrightarrow> ReqWeedOut ids g \<notin>
                set (snd (snd (performFriendOperations (traced send) gid status (fm', (w, [])))))) \<and>
             (op = OpInsecticide \<longrightarrow> ReqInsecticide ids g \<notin>
                set (snd (snd (performFriendOperations (traced send) gid status (fm', (w, []))))))"
    using perform_skips[OF m] by (intro allI)
  show ?thesis
    unfolding Let_def fm'_def[symmetric]
    by (rule conjI, (rule conjI m p1 p2 p3 r sk)+, rule s)
qed

lemma exhaustion_through_limits_example:
  "canGetExp OpWaterLand exampleManager \<and>
   \<not> canGetExp OpWaterLand
       (updateOperationLimits [Some \<lparr>ol_Id = 10007, DayTimes = 4, DayTimesLt = 10, DayExpTimes = 5\<rparr>]
          exampleManager) \<and>
   canGetExp OpWaterLand (checkDailyReset ''2024-05-02''
       (updateOperationLimits [Some \<lparr>ol_Id = 10007, DayTimes = 4, DayTimesLt = 10, DayExpTimes = 5\<rparr>]
          exampleManager))"
  by (simp add: exampleManager_def OpWaterLand_def canGetExp_def HelpOnlyWithExp_def readFlag_def
      updateOperationLimits_def updateOperationLimits_step_def checkDailyReset_def Let_def)

subsection \<open>The replies of the assistance calls\<close>

lemma first_visit:
  "performFriendOperations (traced cappedServer) 42 stealAndWaterStatus
       (initFriendManager ''2024-05-01'', (0, [])) =
     (afterFirstVisit, (2, [ReqHarvest [7] 42 False, ReqWaterLand [1] 42, ReqWaterLand [2] 42]))"
  by (simp add: performFriendOperations_def EnablePutBadThings_def Let_def stealAndWaterStatus_def
      initFriendManager_def afterFirstVisit_def isLimitReached_def StealFromFriend_def traced_def
      cappedServer_def cappedLimit_def isWater_def updateOperationLimits_def
      updateOperationLimits_step_def HelpOnlyWithExp_def help_block_def canGetExp_def readFlag_def
      trackExpBefore_def HelpWaterLand_def OpWaterLand_def OpSteal_def OpWeedOut_def OpInsecticide_def)

lemma second_visit:
  "performFriendOperations (traced cappedServer) 42 waterStatus (afterFirstVisit, (2, [])) =
     (afterFirstVisit, (4, [ReqWaterLand [3] 42, ReqWaterLand [4] 42]))"
  by (simp add: performFriendOperations_def EnablePutBadThings_def Let_def waterStatus_def
      afterFirstVisit_def isLimitReached_def traced_def
      cappedServer_def cappedLimit_def isWater_def
      HelpOnlyWithExp_def help_block_def canGetExp_def readFlag_def
      trackExpBefore_def HelpWaterLand_def OpWaterLand_def OpSteal_def OpWeedOut_def OpInsecticide_def)

text \<open>
  Claim C7 asks that a kind of assistance is marked exhausted when the day-experience
  counter that a successful call of that kind reports has not risen above the value
  tracked before the call. The code records the value (\<open>trackExpBefore\<close> before each help
  loop) and has the comparison (\<open>updateOperationLimits\<close>), but no reply of
  \<open>HelpWaterLand\<close>, \<open>HelpWeedOut\<close> or \<open>HelpInsecticide\<close> reaches the comparison:
  \<open>performFriendOperations\<close> drops the reply, and the three calls return it unread. So a
  help block never changes the exhaustion flags, whatever the server answers.

  On the server where the day-experience counter of watering stays at 5, starting from
  the manager of \<open>init()\<close>: the first visit steals from plot 7, whose reply makes the
  limits of watering known, records 5 as the value before watering, and waters plots 1
  and 2. Both replies report the counter at 5, not above the recorded 5, and the manager
  after the visit has no kind marked: \<open>canGetExp\<close> is true for watering, although passing
  the limits of the second reply to \<open>updateOperationLimits\<close> would have marked it. On the
  second visit, watering is not skipped: the requests for plots 3 and 4 are sent.
\<close>

theorem help_replies_never_mark:
  "expExhausted (fst (help_block HelpWaterLand send OpWaterLand gid need (fm, w))) = expExhausted fm \<and>
   expExhausted (fst (help_block HelpWeedOut send OpWeedOut gid need (fm, w))) = expExhausted fm \<and>
   expExhausted (fst (help_block HelpInsecticide send OpInsecticide gid need (fm, w))) = expExhausted fm \<and>
   performFriendOperations (traced cappedServer) 42 stealAndWaterStatus
       (initFriendManager ''2024-05-01'', (0, [])) =
     (afterFirstVisit, (2, [ReqHarvest [7] 42 False, ReqWaterLand [1] 42, ReqWaterLand [2] 42])) \<and>
   expTracker afterFirstVisit OpWaterLand = Some 5 \<and>
   fst (cappedServer (ReqWaterLand [1] 42) 0) =
     Inr \<lparr>rp_OperationLimits = [Some \<lparr>ol_Id = 10007, DayTimes = 1, DayTimesLt = 10, DayExpTimes = 5\<rparr>],
          rp_GetItems = []\<rparr> \<and>
   fst (cappedServer (ReqWaterLand [2] 42) 1) =
     Inr \<lparr>rp_OperationLimits = [Some \<lparr>ol_Id = 10007, DayTimes = 2, DayTimesLt = 10, DayExpTimes = 5\<rparr>],
          rp_GetItems = []\<rparr> \<and>
   canGetExp OpWaterLand afterFirstVisit \<and>
   \<not> canGetExp OpWaterLand
       (updateOperationLimits
          [Some \<lparr>ol_Id = 10007, DayTimes = 2, DayTimesLt = 10, DayExpTimes = 5\<rparr>] afterFirstVisit) \<and>
   performFriendOperations (traced cappedServer) 42 waterStatus (afterFirstVisit, (2, [])) =
     (afterFirstVisit, (4, [ReqWaterLand [3] 42, ReqWaterLand [4] 42]))"
proof -
  have a: "expExhausted (fst (help_block HelpWaterLand send OpWaterLand gid need (fm, w))) = expExhausted fm"
    by (rule help_block_exhausted)
  have b: "expExhausted (fst (help_block HelpWeedOut send OpWeedOut gid need (fm, w))) = expExhausted fm"
    by (rule help_block_exhausted)
  have c: "expExhausted (fst (help_block HelpInsecticide send OpInsecticide gid need (fm, w))) = expExhausted fm"
    by (rule help_block_exhausted)
  have d: "expTracker afterFirstVisit OpWaterLand = Some 5"
    by (simp add: afterFirstVisit_def)
  have e: "fst (cappedServer (ReqWaterLand [1] 42) 0) =
     Inr \<lparr>rp_OperationLimits = [Some \<lparr>ol_Id = 10007, DayTimes = 1, DayTimesLt = 10, DayExpTimes = 5\<rparr>],
          rp_GetItems = []\<rparr>"
    by (simp add: cappedServer_def cappedLimit_def isWater_def)
  have f: "fst (cappedServer (ReqWaterLand [2] 42) 1) =
     Inr \<lparr>rp_OperationLimits = [Some \<lparr>ol_Id = 10007, DayTimes = 2, DayTimesLt = 10, DayExpTimes = 5\<rparr>],
          rp_GetItems = []\<rparr>"
    by (simp add: cappedServer_def cappedLimit_def isWater_def)
  have g: "canGetExp OpWaterLand afterFirstVisit"
    by (simp add: canGetExp_def afterFirstVisit_def readFlag_def)
  have h: "\<not> canGetExp OpWaterLand
       (updateOperationLimits
          [Some \<lparr>ol_Id = 10007, DayTimes = 2, DayTimesLt = 10, DayExpTimes = 5\<rparr>] afterFirstVisit)"
    by (simp add: canGetExp_def afterFirstVisit_def readFlag_def updateOperationLimits_def
        updateOperationLimits_step_def HelpOnlyWithExp_def OpWaterLand_def Let_def)
  show ?thesis
    using a b c d e f g h first_visit second_visit by simp
qed

section \<open>Partial failures of planting and fertilizing\<close>

lemma traced_apply:
  "traced send req (w, tr) = (fst (send req w), (snd (send req w), tr @ [req]))"
  by (simp add: traced_def split: prod.splits)

lemma PlantSeeds_loop_trace:
  "snd (snd (PlantSeeds_loop (traced send) seedID landIds n (w, tr))) =
     tr @ map (\<lambda>l. ReqPlant seedID [l]) landIds \<and>
   n \<le> fst (PlantSeeds_loop (traced send) seedID landIds n (w, tr)) \<and>
   fst (PlantSeeds_loop (traced send) seedID landIds n (w, tr)) \<le> n + length landIds"
proof (induction landIds arbitrary: n w tr)
  case Nil
  then show ?case by simp
next
  case (Cons l landIds)
  obtain res w' where st: "send (ReqPlant seedID [l]) w = (res, w')"
    by (cases "send (ReqPlant seedID [l]) w") auto
  show ?case
  proof (cases res)
    case (Inl e)
    with st Cons.IH[of n w' "tr @ [ReqPlant seedID [l]]"] show ?thesis
      by (simp add: traced_apply)
  next
    case (Inr r)
    with st Cons.IH[of "Suc n" w' "tr @ [ReqPlant seedID [l]]"] show ?thesis
      by (simp add: traced_apply)
  qed
qed

lemma Fertilize_loop_trace:
  "snd (snd (Fertilize_loop (traced send) fid landIds n (w, tr))) =
     tr @ map (\<lambda>l. ReqFertilize [l] fid)
            (take (Suc (fst (Fertilize_loop (traced send) fid landIds n (w, tr)) - n)) landIds) \<and>
   n \<le> fst (Fertilize_loop (traced send) fid landIds n (w, tr)) \<and>
   fst (Fertilize_loop (traced send) fid landIds n (w, tr)) \<le> n + length landIds"
proof (induction landIds arbitrary: n w tr)
  case Nil
  then show ?case by simp
next
  case (Cons l landIds)
  obtain res w' where st: "send (ReqFertilize [l] fid) w = (res, w')"
    by (cases "send (ReqFertilize [l] fid) w") auto
  show ?case
  proof (cases res)
    case (Inl e)
    with st show ?thesis
      by (simp add: traced_apply)
  next
    case (Inr r)
    define k where "k = fst (Fertilize_loop (traced send) fid landIds (Suc n) (w', tr @ [ReqFertilize [l] fid]))"
    have eq: "Fertilize_loop (traced send) fid (l # landIds) n (w, tr) =
              Fertilize_loop (traced send) fid landIds (Suc n) (w', tr @ [ReqFertilize [l] fid])"
      using st Inr by (simp add: traced_apply)
    from Cons.IH[of "Suc n" w' "tr @ [ReqFertilize [l] fid]"]
    have ih: "snd (snd (Fertilize_loop (traced send) fid landIds (Suc n) (w', tr @ [ReqFertilize [l] fid]))) =
        (tr @ [ReqFertilize [l] fid]) @ map (\<lambda>l. ReqFertilize [l] fid) (take (Suc (k - Suc n)) landIds)"
      and b: "Suc n \<le> k" "k \<le> Suc n + length landIds"
      by (simp_all add: k_def)
    have "k - n = Suc (k - Suc n)" using b by simp
    then have "take (Suc (k - n)) (l # landIds) = l # take (Suc (k - Suc n)) landIds"
      by simp
    with ih b show ?thesis
      unfolding eq k_def[symmetric] by simp
  qed
qed

text \<open>
  Claim C9, as stated, fails for the fertilizer: \<open>Fertilize\<close> leaves its loop at the
  first failed call. With a server on which fertilizing plot 1 fails, \<open>Fertilize\<close> on
  the plots 1, 2, 3 sends the request for plot 1 only; plots 2 and 3 are never
  attempted. (On the same server, where planting on plot 1 fails too, \<open>PlantSeeds\<close>
  still sends the requests for plots 2 and 3.)
\<close>

theorem Fertilize_stops_counterexample:
  "Fertilize (traced exampleServer) [1, 2, 3] NormalFertilizerID ((), []) =
     (0, ((), [ReqFertilize [1] NormalFertilizerID])) \<and>
   PlantSeeds (traced exampleServer) 20002 [1, 2, 3] ((), []) =
     (2, ((), [ReqPlant 20002 [1], ReqPlant 20002 [2], ReqPlant 20002 [3]]))"
  by (simp add: Fertilize_def PlantSeeds_def traced_def exampleServer_def)

lemma answered_apply:
  "answered send req (w, tr) =
     (fst (send req w), (snd (send req w), tr @ [(req, isOK (fst (send req w)))]))"
  by (simp add: answered_def split: prod.splits)

lemma Fertilize_loop_answers:
  "\<exists>xs. snd (snd (Fertilize_loop (answered send) fid landIds n (w, tr))) = tr @ xs \<and>
     map fst xs = map (\<lambda>l. ReqFertilize [l] fid) (take (length xs) landIds) \<and>
     (\<forall>i. Suc i < length xs \<longrightarrow> snd (xs ! i)) \<and>
     (length xs < length landIds \<longrightarrow> xs \<noteq> [] \<and> \<not> snd (last xs)) \<and>
     fst (Fertilize_loop (answered send) fid landIds n (w, tr)) = n + length (filter snd xs)"
proof (induction landIds arbitrary: n w tr)
  case Nil
  then show ?case by simp
next
  case (Cons l landIds)
  let ?req = "ReqFertilize [l] fid"
  obtain res w' where st: "send ?req w = (res, w')"
    by (cases "send ?req w") auto
  show ?case
  proof (cases res)
    case (Inl e)
    with st show ?thesis
      by (intro exI[of _ "[(?req, False)]"]) (simp add: answered_apply isOK_def)
  next
    case (Inr r)
    have eq: "Fertilize_loop (answered send) fid (l # landIds) n (w, tr) =
              Fertilize_loop (answered send) fid landIds (Suc n) (w', tr @ [(?req, True)])"
      using st Inr by (simp add: answered_apply isOK_def)
    from Cons.IH[of "Suc n" w' "tr @ [(?req, True)]"] obtain xs where xs:
      "snd (snd (Fertilize_loop (answered send) fid landIds (Suc n) (w', tr @ [(?req, True)]))) =
         (tr @ [(?req, True)]) @ xs"
      "map fst xs = map (\<lambda>l. ReqFertilize [l] fid) (take (length xs) landIds)"
      "\<forall>i. Suc i < length xs \<longrightarrow> snd (xs ! i)"
      "length xs < length landIds \<longrightarrow> xs \<noteq> [] \<and> \<not> snd (last xs)"
      "fst (Fertilize_loop (answered send) fid landIds (Suc n) (w', tr @ [(?req, True)])) =
         Suc n + length (filter snd xs)"
      by blast
    have all: "\<forall>i. Suc i < length ((?req, True) # xs) \<longrightarrow> snd (((?req, True) # xs) ! i)"
    proof (intro allI impI)
      fix i assume "Suc i < length ((?req, True) # xs)"
      then show "snd (((?req, True) # xs) ! i)"
        using xs(3) by (cases i) auto
    qed
    show ?thesis
      unfolding eq
      using xs(1,2,4,5) all
      by (intro exI[of _ "(?req, True) # xs"]) auto
  qed
qed

lemma PlantSeeds_loop_answers:
  "\<exists>xs. snd (snd (PlantSeeds_loop (answered send) seedID landIds n (w, tr))) = tr @ xs \<and>
     map fst xs = map (\<lambda>l. ReqPlant seedID [l]) landIds \<and>
     fst (PlantSeeds_loop (answered send) seedID landIds n (w, tr)) = n + length (filter snd xs)"
proof (induction landIds arbitrary: n w tr)
  case Nil
  then show ?case by simp
next
  case (Cons l landIds)
  let ?req = "ReqPlant seedID [l]"
  obtain res w' where st: "send ?req w = (res, w')"
    by (cases "send ?req w") auto
  show ?case
  proof (cases res)
    case (Inl e)
    have eq: "PlantSeeds_loop (answered send) seedID (l # landIds) n (w, tr) =
              PlantSeeds_loop (answered send) seedID landIds n (w', tr @ [(?req, False)])"
      using st Inl by (simp add: answered_apply isOK_def)
    from Cons.IH[of n w' "tr @ [(?req, False)]"] obtain xs where xs:
      "snd (snd (PlantSeeds_loop (answered send) seedID landIds n (w', tr @ [(?req, False)]))) =
         (tr @ [(?req, False)]) @ xs"
      "map fst xs = map (\<lambda>l. ReqPlant seedID [l]) landIds"
      "fst (PlantSeeds_loop (answered send) seedID landIds n (w', tr @ [(?req, False)])) =
         n + length (filter snd xs)"
      by blast
    show ?thesis
      unfolding eq using xs by (intro exI[of _ "(?req, False) # xs"]) auto
  next
    case (Inr r)
    have eq: "PlantSeeds_loop (answered send) seedID (l # landIds) n (w, tr) =
              PlantSeeds_loop (answered send) seedID landIds (Suc n) (w', tr @ [(?req, True)])"
      using st Inr by (simp add: answered_apply isOK_def)
    from Cons.IH[of "Suc n" w' "tr @ [(?req, True)]"] obtain xs where xs:
      "snd (snd (PlantSeeds_loop (answered send) seedID landIds (Suc n) (w', tr @ [(?req, True)]))) =
         (tr @ [(?req, True)]) @ xs"
      "map fst xs = map (\<lambda>l. ReqPlant seedID [l]) landIds"
      "fst (PlantSeeds_loop (answered send) seedID landIds (Suc n) (w', tr @ [(?req, True)])) =
         Suc n + length (filter snd xs)"
      by blast
    show ?thesis
      unfolding eq using xs by (intro exI[of _ "(?req, True) # xs"]) auto
  qed
qed

lemma answered_Fertilize_loop:
  "fst (Fertilize_loop (answered send) fid landIds n (w, tr)) = fst (Fertilize_loop send fid landIds n w) \<and>
   fst (snd (Fertilize_loop (answered send) fid landIds n (w, tr))) = snd (Fertilize_loop send fid landIds n w)"
proof (induction landIds arbitrary: n w tr)
  case Nil
  then show ?case by simp
next
  case (Cons l landIds)
  obtain res w' where st: "send (ReqFertilize [l] fid) w = (res, w')"
    by (cases "send (ReqFertilize [l] fid) w") auto
  show ?case
  proof (cases res)
    case (Inl e)
    with st show ?thesis by (simp add: answered_apply)
  next
    case (Inr r)
    with st Cons.IH[of "Suc n" w'] show ?thesis by (simp add: answered_apply)
  qed
qed

lemma answered_PlantSeeds_loop:
  "fst (PlantSeeds_loop (answered send) seedID landIds n (w, tr)) = fst (PlantSeeds_loop send seedID landIds n w) \<and>
   fst (snd (PlantSeeds_loop (answered send) seedID landIds n (w, tr))) = snd (PlantSeeds_loop send seedID landIds n w)"
proof (induction landIds arbitrary: n w tr)
  case Nil
  then show ?case by simp
next
  case (Cons l landIds)
  obtain res w' where st: "send (ReqPlant seedID [l]) w = (res, w')"
    by (cases "send (ReqPlant seedID [l]) w") auto
  show ?case
  proof (cases res)
    case (Inl e)
    with st Cons.IH[of n w'] show ?thesis by (simp add: answered_apply)
  next
    case (Inr r)
    with st Cons.IH[of "Suc n" w'] show ?thesis by (simp add: answered_apply)
  qed
qed

text \<open>
  Claim C9, amended. Whatever the server answers, \<open>PlantSeeds\<close> sends one plant request
  for every plot of the list, in order, and returns the number of the requests that
  succeeded: a failed planting does not keep the remaining plots from being attempted.
  \<open>Fertilize\<close> sends its requests for a prefix of the list, in order; every request but
  the last one sent has succeeded, so that the first failure ends the loop; if a plot of
  the list is left without a request, then the last request sent has failed; and the
  result is the number of the requests that succeeded. Here \<open>tr\<close> is the list of the
  requests sent, each with its outcome.
\<close>

theorem plant_continues_fertilize_stops:
  "(let tr = snd (snd (PlantSeeds (answered send) seedID landIds (w, [])))
    in map fst tr = map (\<lambda>l. ReqPlant seedID [l]) landIds \<and>
       fst (PlantSeeds send seedID landIds w) = length (filter snd tr)) \<and>
   (let tr = snd (snd (Fertilize (answered send) landIds fertilizerID (w, [])))
    in map fst tr = map (\<lambda>l. ReqFertilize [l] fertilizerID) (take (length tr) landIds) \<and>
       (\<forall>i. Suc i < length tr \<longrightarrow> snd (tr ! i)) \<and>
       (length tr < length landIds \<longrightarrow> tr \<noteq> [] \<and> \<not> snd (last tr)) \<and>
       fst (Fertilize send landIds fertilizerID w) = length (filter snd tr))"
proof -
  from PlantSeeds_loop_answers[of send seedID landIds 0 w "[]"]
  have p: "let tr = snd (snd (PlantSeeds (answered send) seedID landIds (w, [])))
    in map fst tr = map (\<lambda>l. ReqPlant seedID [l]) landIds \<and>
       fst (PlantSeeds send seedID landIds w) = length (filter snd tr)"
    using answered_PlantSeeds_loop[of send seedID landIds 0 w "[]"]
    by (auto simp: PlantSeeds_def Let_def)
  from Fertilize_loop_answers[of send fertilizerID landIds 0 w "[]"]
  have f: "let tr = snd (snd (Fertilize (answered send) landIds fertilizerID (w, [])))
    in map fst tr = map (\<lambda>l. ReqFertilize [l] fertilizerID) (take (length tr) landIds) \<and>
       (\<forall>i. Suc i < length tr \<longrightarrow> snd (tr ! i)) \<and>
       (length tr < length landIds \<longrightarrow> tr \<noteq> [] \<and> \<not> snd (last tr)) \<and>
       fst (Fertilize send landIds fertilizerID w) = length (filter snd tr)"
    using answered_Fertilize_loop[of send fertilizerID landIds 0 w "[]"]
    by (auto simp: Fertilize_def Let_def)
  from p f show ?thesis by (rule conjI)
qed

theorem plant_continues_fertilize_stops_witness:
  "snd (snd (Fertilize (answered exampleServer) [2, 1, 3] NormalFertilizerID ((), []))) =
     [(ReqFertilize [2] NormalFertilizerID, True), (ReqFertilize [1] NormalFertilizerID, False)] \<and>
   Suc 0 < length (snd (snd (Fertilize (answered exampleServer) [2, 1, 3] NormalFertilizerID ((), [])))) \<and>
   snd (snd (snd (Fertilize (answered exampleServer) [2, 1, 3] NormalFertilizerID ((), []))) ! 0) \<and>
   length (snd (snd (Fertilize (answered exampleServer) [2, 1, 3] NormalFertilizerID ((), [])))) < length [2, 1, 3 :: int] \<and>
   \<not> snd (last (snd (snd (Fertilize (answered exampleServer) [2, 1, 3] NormalFertilizerID ((), []))))) \<and>
   fst (Fertilize exampleServer [2, 1, 3] NormalFertilizerID ()) = 1 \<and>
   snd (snd (PlantSeeds (answered exampleServer) 20002 [2, 1, 3] ((), []))) =
     [(ReqPlant 20002 [2], True), (ReqPlant 20002 [1], False), (ReqPlant 20002 [3], True)] \<and>
   fst (PlantSeeds exampleServer 20002 [2, 1, 3] ()) = 2"
  using plant_continues_fertilize_stops[of exampleServer 20002 "[2, 1, 3]" "()" NormalFertilizerID]
  by (simp add: Fertilize_def PlantSeeds_def answered_def exampleServer_def isOK_def)

section \<open>The budget check of AutoPlantEmptyLands\<close>

lemma int64_id: "- (2 ^ 63) \<le> x \<Longrightarrow> x < 2 ^ 63 \<Longrightarrow> int64 x = x"
  by (simp add: int64_def)

lemma quo_pos: "0 \<le> a \<Longrightarrow> 0 < b \<Longrightarrow> quo a b = a div b"
  by (cases "a = 0") (simp_all add: quo_def)

lemma budget_affordable:
  assumes "0 < p" "p \<le> g" "g < 2 ^ 63" "g < int64 (p * int (length ls))"
  shows "AutoPlant_budget p g ls = Inr (take (nat (g div p)) ls) \<and> 0 < g div p \<and>
         g div p < int (length ls)"
proof -
  have g0: "0 \<le> g" using assms by simp
  have q: "quo g p = g div p" using g0 assms(1) by (rule quo_pos)
  have d1: "0 < g div p" using assms(1,2) by (simp add: pos_imp_zdiv_pos_iff)
  have m: "p * (g div p) \<le> g"
  proof -
    have "p * (g div p) + g mod p = g" by simp
    moreover have "0 \<le> g mod p" using assms(1) by simp
    ultimately show ?thesis by linarith
  qed
  have d2: "g div p \<le> g"
    using zdiv_mono2[of g 1 p] g0 assms(1) by simp
  have c: "int64 (g div p) = g div p"
    using d1 d2 assms(3) by (intro int64_id) auto
  have lt: "g div p < int (length ls)"
  proof (rule ccontr)
    assume "\<not> g div p < int (length ls)"
    then have le: "int (length ls) \<le> g div p" by simp
    have "p * int (length ls) \<le> p * (g div p)"
      using le assms(1) by (simp add: mult_left_mono)
    also have "\<dots> \<le> g" by (rule m)
    finally have u: "p * int (length ls) \<le> g" .
    have "0 \<le> p * int (length ls)" using assms(1) by simp
    with u assms(3) have "int64 (p * int (length ls)) = p * int (length ls)"
      by (intro int64_id) auto
    with u assms(4) show False by simp
  qed
  show ?thesis
    using assms q c d1 lt by (simp add: AutoPlant_budget_def Let_def)
qed


lemma budget_unaffordable:
  assumes "0 < p" "0 \<le> g" "g < p" "g < int64 (p * int (length ls))"
  shows "AutoPlant_budget p g ls = Inl ErrNotEnoughGold"
proof -
  have "quo g p = 0" using assms by (simp add: quo_pos)
  then show ?thesis
    using assms by (simp add: AutoPlant_budget_def Let_def int64_def)
qed

lemma buyPlantFertilize_bought:
  assumes "send (ReqBuyGoods (si_GoodsId seed) (int (length ls)) (si_Price seed)) w = (Inr reply, w1)"
      and "sid = (if 0 < length (rp_GetItems reply) \<and> 0 < rp_GetItems reply ! 0
                 then rp_GetItems reply ! 0 else si_SeedId seed)"
      and "PlantSeeds send sid ls w1 = (planted, w2)"
  shows "AutoPlant_buyPlantFertilize send seed ls w =
     (if 0 < planted then (None, snd (Fertilize send (take planted ls) NormalFertilizerID w2))
      else (None, w2))"
  using assms(1,3) unfolding assms(2)
  by (simp add: AutoPlant_buyPlantFertilize_def Let_def case_prod_beta)

lemma buyPlantFertilize_trace:
  "\<exists>rest. snd (snd (AutoPlant_buyPlantFertilize (traced send) seed ls (w, []))) =
      ReqBuyGoods (si_GoodsId seed) (int (length ls)) (si_Price seed) # rest \<and>
      (\<forall>reply w'. send (ReqBuyGoods (si_GoodsId seed) (int (length ls)) (si_Price seed)) w = (Inr reply, w') \<longrightarrow>
         (\<exists>sid fs. rest = map (\<lambda>l. ReqPlant sid [l]) ls @ fs))"
proof -
  let ?b = "ReqBuyGoods (si_GoodsId seed) (int (length ls)) (si_Price seed)"
  obtain res w1 where st: "send ?b w = (res, w1)" by (cases "send ?b w") auto
  show ?thesis
  proof (cases res)
    case (Inl e)
    with st show ?thesis
      by (simp add: AutoPlant_buyPlantFertilize_def traced_apply)
  next
    case (Inr reply)
    define sid where "sid = (if 0 < length (rp_GetItems reply) \<and> 0 < rp_GetItems reply ! 0
                 then rp_GetItems reply ! 0 else si_SeedId seed)"
    obtain planted w2 tr2 where pl: "PlantSeeds (traced send) sid ls (w1, [?b]) = (planted, (w2, tr2))"
      by (cases "PlantSeeds (traced send) sid ls (w1, [?b])") auto
    have tr2: "tr2 = [?b] @ map (\<lambda>l. ReqPlant sid [l]) ls"
      using PlantSeeds_loop_trace[of send sid ls 0 w1 "[?b]"] pl by (simp add: PlantSeeds_def)
    obtain fertilized w3 tr3 where fe:
      "Fertilize (traced send) (take planted ls) NormalFertilizerID (w2, tr2) = (fertilized, (w3, tr3))"
      by (cases "Fertilize (traced send) (take planted ls) NormalFertilizerID (w2, tr2)") auto
    have "\<exists>fs. tr3 = tr2 @ fs"
      using Fertilize_loop_trace[of send NormalFertilizerID "take planted ls" 0 w2 tr2] fe
      by (simp add: Fertilize_def)
    then obtain fs where tr3: "tr3 = tr2 @ fs" by blast
    have "snd (snd (AutoPlant_buyPlantFertilize (traced send) seed ls (w, []))) =
          (if 0 < planted then tr3 else tr2)"
      using buyPlantFertilize_bought[of "traced send" seed ls "(w, [])" reply "(w1, [?b])" sid planted "(w2, tr2)"]
        st Inr pl fe
      by (simp add: traced_apply sid_def)
    then show ?thesis
      using st Inr tr2 tr3 by auto
  qed
qed

text \<open>
  Claim C8, as stated, fails when not even one seed is affordable: with a seed price of
  10, one plot to plant and 5 gold, the cost 10 exceeds the gold, and
  \<open>AutoPlantEmptyLands\<close> returns the error of insufficient gold without sending a
  request: nothing is bought or planted.
\<close>

theorem budget_check_fails_counterexample:
  "int64 (si_Price exampleSeed * int (length [2 :: int])) = 10 \<and>
   env_Gold (tracedEnv (exampleEnv 5)) ((), []) = 5 \<and>
   AutoPlantEmptyLands (tracedEnv (exampleEnv 5)) [] [2] 1 ((), []) =
     (Some ErrNotEnoughGold, ((), []))"
  by (simp add: AutoPlantEmptyLands_def AutoPlant_removeDead_def AutoPlant_budget_def
      tracedEnv_def exampleEnv_def exampleSeed_def int64_def quo_def Let_def)

text \<open>
  Claim C8, amended. Let the seed price be positive, the gold a non-negative \<open>int64\<close>,
  and let the total cost as the code computes it (price times the number of plots to
  plant, in \<open>int64\<close>) exceed the gold. If the gold covers at least one seed, the
  planting set is cut to its first \<open>gold div price\<close> plots, a number between 1 and the
  number of plots less one, and the operation goes on with that set: the purchase is
  requested for that many seeds and, if it succeeds, a plant request follows for each of
  those plots. If the gold is below the price, the operation fails with the error of
  insufficient gold.
\<close>

theorem budget_check:
  assumes "AutoPlant_removeDead (env_send env) deadLandIds emptyLandIds w = (lands, w1)"
      and "lands \<noteq> []"
      and "env_FindBestSeed env unlockedCount w1 = (Inr (Some seed), w2)"
      and "0 < si_Price seed" "0 \<le> env_Gold env w2" "env_Gold env w2 < 2 ^ 63"
      and "env_Gold env w2 < int64 (si_Price seed * int (length lands))"
  shows "(si_Price seed \<le> env_Gold env w2 \<longrightarrow>
            0 < env_Gold env w2 div si_Price seed \<and>
            env_Gold env w2 div si_Price seed < int (length lands) \<and>
            AutoPlantEmptyLands env deadLandIds emptyLandIds unlockedCount w =
              AutoPlant_buyPlantFertilize (env_send env) seed
                (take (nat (env_Gold env w2 div si_Price seed)) lands) w2) \<and>
         (env_Gold env w2 < si_Price seed \<longrightarrow>
            AutoPlantEmptyLands env deadLandIds emptyLandIds unlockedCount w =
              (Some ErrNotEnoughGold, w2)) \<and>
         (\<forall>send ls v. \<exists>rest.
            snd (snd (AutoPlant_buyPlantFertilize (traced send) seed ls (v, []))) =
              ReqBuyGoods (si_GoodsId seed) (int (length ls)) (si_Price seed) # rest \<and>
            (\<forall>reply v'. send (ReqBuyGoods (si_GoodsId seed) (int (length ls)) (si_Price seed)) v =
                 (Inr reply, v') \<longrightarrow>
               (\<exists>sid fs. rest = map (\<lambda>l. ReqPlant sid [l]) ls @ fs)))"
proof -
  have run: "AutoPlantEmptyLands env deadLandIds emptyLandIds unlockedCount w =
      (case AutoPlant_budget (si_Price seed) (env_Gold env w2) lands of
         Inl e \<Rightarrow> (Some e, w2)
       | Inr ls \<Rightarrow> AutoPlant_buyPlantFertilize (env_send env) seed ls w2)"
    using assms(1-3) by (simp add: AutoPlantEmptyLands_def)
  have a: "si_Price seed \<le> env_Gold env w2 \<longrightarrow>
            0 < env_Gold env w2 div si_Price seed \<and>
            env_Gold env w2 div si_Price seed < int (length lands) \<and>
            AutoPlantEmptyLands env deadLandIds emptyLandIds unlockedCount w =
              AutoPlant_buyPlantFertilize (env_send env) seed
                (take (nat (env_Gold env w2 div si_Price seed)) lands) w2"
  proof
    assume le: "si_Price seed \<le> env_Gold env w2"
    from budget_affordable[OF assms(4) le assms(6) assms(7)] run
    show "0 < env_Gold env w2 div si_Price seed \<and>
            env_Gold env w2 div si_Price seed < int (length lands) \<and>
            AutoPlantEmptyLands env deadLandIds emptyLandIds unlockedCount w =
              AutoPlant_buyPlantFertilize (env_send env) seed
                (take (nat (env_Gold env w2 div si_Price seed)) lands) w2"
      by simp
  qed
  have b: "env_Gold env w2 < si_Price seed \<longrightarrow>
            AutoPlantEmptyLands env deadLandIds emptyLandIds unlockedCount w =
              (Some ErrNotEnoughGold, w2)"
  proof
    assume lt: "env_Gold env w2 < si_Price seed"
    from budget_unaffordable[OF assms(4) assms(5) lt assms(7)] run
    show "AutoPlantEmptyLands env deadLandIds emptyLandIds unlockedCount w =
              (Some ErrNotEnoughGold, w2)"
      by simp
  qed
  have c: "\<forall>send ls v. \<exists>rest.
            snd (snd (AutoPlant_buyPlantFertilize (traced send) seed ls (v, []))) =
              ReqBuyGoods (si_GoodsId seed) (int (length ls)) (si_Price seed) # rest \<and>
            (\<forall>reply v'. send (ReqBuyGoods (si_GoodsId seed) (int (length ls)) (si_Price seed)) v =
                 (Inr reply, v') \<longrightarrow>
               (\<exists>sid fs. rest = map (\<lambda>l. ReqPlant sid [l]) ls @ fs))"
    using buyPlantFertilize_trace by (intro allI)
  show ?thesis
    by (rule conjI, rule a, rule conjI, rule b, rule c)
qed

theorem budget_check_witness:
  "AutoPlant_removeDead (env_send (tracedEnv (exampleEnv 25))) [] [2, 3, 4] ((), []) =
     ([2, 3, 4], ((), [])) \<and>
   env_FindBestSeed (tracedEnv (exampleEnv 25)) 3 ((), []) = (Inr (Some exampleSeed), ((), [])) \<and>
   si_Price exampleSeed = 10 \<and>
   env_Gold (tracedEnv (exampleEnv 25)) ((), []) = 25 \<and>
   int64 (si_Price exampleSeed * int (length [2, 3, 4 :: int])) = 30 \<and>
   AutoPlantEmptyLands (tracedEnv (exampleEnv 25)) [] [2, 3, 4] 3 ((), []) =
     (None, ((), [ReqBuyGoods 7 2 10, ReqPlant 20002 [2], ReqPlant 20002 [3],
                  ReqFertilize [2] 1011, ReqFertilize [3] 1011]))"
  using budget_check[of "tracedEnv (exampleEnv 25)" "[]" "[2, 3, 4]" "((), [])" "[2, 3, 4]"
      "((), [])" 3 exampleSeed "((), [])", THEN conjunct1]
  by (simp add: AutoPlant_removeDead_def tracedEnv_def exampleEnv_def exampleSeed_def
      int64_def AutoPlant_buyPlantFertilize_def traced_def exampleServer_def PlantSeeds_def
      Fertilize_def NormalFertilizerID_def Let_def)

end
